theory Spec2Isabelle
  imports Main "HOL-Library.AList" "HOL-Library.Sublist"
begin

text \<open>
  A shallow embedding of the suite execution engine of \<^verbatim>\<open>lisa/testsuite.py\<close>: the
  result state machine (\<^verbatim>\<open>TestResult\<close>), the orchestrator (\<^verbatim>\<open>TestSuite.start\<close>
  and its helpers) and the metadata registry. Mutation is explicit state passing, an
  exception is a value, and logging is left out. Strings are lists of characters, so the
  length of a string counts bytes.
\<close>

section \<open>Data model of lisa/testsuite.py\<close>

text \<open>
  The enumeration \<^verbatim>\<open>TestStatus\<close>, in the order the source lists its members.
\<close>

datatype TestStatus = NOTRUN | RUNNING | FAILED | PASSED | SKIPPED | ATTEMPTED

text \<open>
  An object of class \<^verbatim>\<open>Exception\<close> raised by a hook or a case body.
  \<^verbatim>\<open>handle_exception\<close> looks at it through three \<^verbatim>\<open>isinstance\<close> tests and
  through \<^verbatim>\<open>str(exception)\<close>, so the object is represented by the answers to exactly
  these four questions. The three classes are kept as independent flags: the order of the
  tests decides when several hold.

  Every handler of the engine is \<^verbatim>\<open>except Exception\<close>, and \<^verbatim>\<open>retry_call\<close> is told
  to retry on \<^verbatim>\<open>Exception\<close>. A raise outside that class (\<^verbatim>\<open>KeyboardInterrupt\<close>,
  \<^verbatim>\<open>SystemExit\<close>) is caught nowhere and ends the run; it is not a value of this type,
  and every statement below about a hook that raises is about a raise of class
  \<^verbatim>\<open>Exception\<close>.
\<close>

record py_exception =
  is_SkippedException :: bool
  is_NotRunException :: bool
  is_PassedException :: bool
  exc_str :: string

text \<open>
  \<^verbatim>\<open>search_space.ResultReason\<close>: the outcome of a capability check with its
  explanations.
\<close>

record ResultReason =
  result :: bool
  reasons :: "string list"

text \<open>
  A requirement space is an object of the capability library. The engine asks it two
  things: its truth value, and the result of \<^verbatim>\<open>check\<close> on a capability.
\<close>

record 'a space =
  space_truthy :: bool
  space_check :: "'a \<Rightarrow> ResultReason"

text \<open>
  \<^verbatim>\<open>TestCaseRequirement\<close>. The type \<open>'c\<close> is the environment capability; an
  operating system type is given by its method resolution order, a list of class names.
\<close>

record 'c TestCaseRequirement =
  req_environment :: "'c space option"
  req_os_type :: "string list space option"

record 'c TestCaseMetadata =
  name :: string
  full_name :: string
  priority :: int
  description :: string
  requirement :: "'c TestCaseRequirement"
  suite :: "string option"

record 'c TestCaseRuntimeData =
  metadata :: "'c TestCaseMetadata"
  select_action :: string
  times :: int
  retry :: int
  use_new_environment :: bool
  ignore_failure :: bool
  environment_name :: string

datatype EnvironmentStatus = Deployed | Connected | Other_status string

record Node =
  os_mro :: "string list"

text \<open>
  The environment collaborator, with the members the engine reads:
  \<^verbatim>\<open>is_new\<close>, \<^verbatim>\<open>status\<close>, \<^verbatim>\<open>nodes.list()\<close>, \<^verbatim>\<open>capability\<close> and the
  result of \<^verbatim>\<open>get_information()\<close>. A Python dictionary keeps insertion order and
  is an association list here.
\<close>

record 'c Environment =
  is_new :: bool
  env_status :: EnvironmentStatus
  nodes :: "Node list"
  capability :: 'c
  get_information :: "(string \<times> string) list"

text \<open>
  \<^verbatim>\<open>TestResultMessage\<close>, with the fields \<^verbatim>\<open>elapsed\<close> and \<^verbatim>\<open>type\<close> of its
  base class. Time is counted in ticks of a monotonic clock.
\<close>

record TestResultMessage =
  msg_id :: string
  msg_type :: string
  msg_name :: string
  msg_status :: TestStatus
  msg_elapsed :: nat
  msg_message :: string
  msg_information :: "(string \<times> string) list"

text \<open>
  \<^verbatim>\<open>TestResult\<close>. The field \<open>ident\<close> is \<^verbatim>\<open>id_\<close>. The field \<open>timer\<close> is
  the attribute \<^verbatim>\<open>_timer\<close>: \<open>None\<close> while \<^verbatim>\<open>hasattr(self, "_timer")\<close> is
  false.

  Modelled from the spec: the timer of \<^verbatim>\<open>lisa.util.perf_timer\<close> is not part of the
  sources at hand. The spec has a wall-clock timer start when a record enters
  \<open>RUNNING\<close> and derives the elapsed time from it; here a timer is the clock reading
  at which it was created, and its elapsed time is the distance to the current reading.
\<close>

record 'c TestResult =
  ident :: string
  runtime_data :: "'c TestCaseRuntimeData"
  status :: TestStatus
  elapsed :: nat
  message :: string
  environment :: "'c Environment option"
  check_results :: "ResultReason option"
  information :: "(string \<times> string) list"
  timer :: "nat option"

text \<open>
  What the engine changes outside the records it is handed: the flag
  \<^verbatim>\<open>_should_stop\<close> of the suite object, the world \<open>'w\<close> the hooks act on, the clock,
  the messages handed to \<^verbatim>\<open>notifier.notify\<close> (oldest first), and the hook
  invocations made so far (oldest first).
\<close>

datatype hook_id =
  Before_suite | After_suite | Before_case string | After_case string | Test_method string

record 'w run_state =
  should_stop :: bool
  world :: 'w
  clock :: nat
  notified :: "TestResultMessage list"
  call_log :: "hook_id list"

section \<open>The result state machine\<close>

text \<open>
  \<^verbatim>\<open>dict.update\<close>: an existing key keeps its position and takes the new value, a new
  key is appended.
\<close>

definition dict_update ::
  "(string \<times> string) list \<Rightarrow> (string \<times> string) list \<Rightarrow> (string \<times> string) list" where
  "dict_update d other = foldl (\<lambda>acc kv. AList.update (fst kv) (snd kv) acc) d other"

text \<open>\<^verbatim>\<open>"\n".join(...)\<close>\<close>

fun join_lines :: "string list \<Rightarrow> string" where
  "join_lines [] = []"
| "join_lines [x] = x"
| "join_lines (x # y # ys) = x @ [CHR 0x0A] @ join_lines (y # ys)"

text \<open>
  \<^verbatim>\<open>_send_result_message\<close>: the elapsed time is read from the timer when there is
  one, the environment's information is merged into the record's, and one message goes
  to the notifier.
\<close>

definition send_result_message ::
  "'c TestResult \<Rightarrow> 'w run_state \<Rightarrow> 'c TestResult \<times> 'w run_state" where
  "send_result_message self st =
    (let self1 = (case timer self of
                    Some t0 \<Rightarrow> self\<lparr>elapsed := clock st - t0\<rparr>
                  | None \<Rightarrow> self);
         self2 = (case environment self1 of
                    Some env \<Rightarrow>
                      self1\<lparr>information := dict_update (information self1) (get_information env)\<rparr>
                  | None \<Rightarrow> self1);
         result_message =
           \<lparr>msg_id = ident self2,
            msg_type = ''TestResult'',
            msg_name = full_name (metadata (runtime_data self2)),
            msg_status = status self2,
            msg_elapsed = elapsed self2,
            msg_message = take 2048 (message self2),
            msg_information = dict_update [] (information self2)\<rparr>
     in (self2, st\<lparr>notified := notified st @ [result_message]\<rparr>))"

text \<open>
  The second argument of \<^verbatim>\<open>set_status\<close> is a string or a list of strings.
\<close>

datatype message_arg = Str string | StrList "string list"

fun arg_truthy :: "message_arg \<Rightarrow> bool" where
  "arg_truthy (Str s) = (s \<noteq> [])"
| "arg_truthy (StrList l) = (l \<noteq> [])"

fun arg_list :: "message_arg \<Rightarrow> string list" where
  "arg_list (Str s) = [s]"
| "arg_list (StrList l) = l"

definition set_status ::
  "TestStatus \<Rightarrow> message_arg \<Rightarrow> 'c TestResult \<Rightarrow> 'w run_state
    \<Rightarrow> 'c TestResult \<times> 'w run_state" where
  "set_status new_status msg self st =
    (let self1 =
           (if arg_truthy msg
            then self\<lparr>message :=
                   join_lines ((if message self \<noteq> [] then [message self] else []) @ arg_list msg)\<rparr>
            else self)
     in if status self1 \<noteq> new_status
        then let self2 = self1\<lparr>status := new_status\<rparr>;
                 self3 = (if new_status = RUNNING then self2\<lparr>timer := Some (clock st)\<rparr>
                          else self2)
             in send_result_message self3 st
        else (self1, st))"

text \<open>
  \<^verbatim>\<open>handle_exception\<close>. Logging is not part of the model.
\<close>

definition handle_exception ::
  "py_exception \<Rightarrow> string \<Rightarrow> 'c TestResult \<Rightarrow> 'w run_state
    \<Rightarrow> 'c TestResult \<times> 'w run_state" where
  "handle_exception exception phase0 self st =
    (let phase = (if phase0 \<noteq> [] then phase0 @ '' '' else phase0)
     in if is_SkippedException exception
        then set_status SKIPPED (Str (phase @ ''skipped: '' @ exc_str exception)) self st
        else if is_NotRunException exception
        then set_status NOTRUN (Str (phase @ ''notrun: '' @ exc_str exception)) self st
        else if is_PassedException exception
        then set_status PASSED (Str (phase @ ''warning: '' @ exc_str exception)) self st
        else if ignore_failure (runtime_data self)
        then set_status ATTEMPTED (Str (phase @ exc_str exception)) self st
        else set_status FAILED (Str (phase @ ''failed: '' @ exc_str exception)) self st)"

text \<open>
  Creation of a record: the dataclass constructor with its defaults, followed by
  \<^verbatim>\<open>__post_init__\<close>, which sends a message and only annotates \<^verbatim>\<open>_timer\<close>.
\<close>

definition TestResult_init ::
  "string \<Rightarrow> 'c TestCaseRuntimeData \<Rightarrow> 'w run_state \<Rightarrow> 'c TestResult \<times> 'w run_state" where
  "TestResult_init i rd st =
    send_result_message
      \<lparr>ident = i, runtime_data = rd, status = NOTRUN, elapsed = 0, message = [],
       environment = None, check_results = None, information = [], timer = None\<rparr> st"

definition can_run :: "'c TestResult \<Rightarrow> bool" where
  "can_run self = (status self = NOTRUN)"

section \<open>Capability check of a record against an environment\<close>

datatype py_error = AttributeError string | AssertionError | LisaException string

text \<open>
  Modelled from the spec: \<^verbatim>\<open>ResultReason.merge\<close> of the capability library is not
  part of the sources at hand. The spec describes it as
  \<^verbatim>\<open>Merge(resultA, resultB, label)\<close>, folding two check results into one
  explanation: the merged result holds when both do, and the reasons of the second,
  labelled, follow those of the first.
\<close>

definition merge :: "ResultReason \<Rightarrow> ResultReason \<Rightarrow> string \<Rightarrow> ResultReason" where
  "merge self sub_result label =
    \<lparr>result = (result self \<and> result sub_result),
     reasons = reasons self @
       map (\<lambda>r. if label \<noteq> [] then label @ '': '' @ r else r) (reasons sub_result)\<rparr>"

text \<open>
  The loop over \<^verbatim>\<open>environment.nodes.list()\<close> in \<^verbatim>\<open>check_environment\<close>: each
  node's check is merged under the label \<^verbatim>\<open>os_type\<close>, and the loop is left as soon
  as the merged result is false.
\<close>

fun os_type_loop :: "string list space \<Rightarrow> ResultReason \<Rightarrow> Node list \<Rightarrow> ResultReason" where
  "os_type_loop os check_result [] = check_result"
| "os_type_loop os check_result (node # rest) =
    (let merged = merge check_result (space_check os (os_mro node)) ''os_type''
     in if \<not> result merged then merged else os_type_loop os merged rest)"

definition check_environment ::
  "'c TestResult \<Rightarrow> 'c Environment \<Rightarrow> bool \<Rightarrow> py_error + (bool \<times> 'c TestResult)" where
  "check_environment self env save_reason =
    (let req = requirement (metadata (runtime_data self))
     in case req_environment req of
          None \<Rightarrow> Inl AssertionError
        | Some env_space \<Rightarrow>
            if \<not> space_truthy env_space then Inl AssertionError
            else
              let check_result0 = space_check env_space (capability env);
                  check_result =
                    (case req_os_type req of
                       Some os \<Rightarrow>
                         if result check_result0 \<and> space_truthy os \<and> env_status env = Connected
                         then os_type_loop os check_result0 (nodes env)
                         else check_result0
                     | None \<Rightarrow> check_result0);
                  self1 =
                    (if save_reason
                     then (case check_results self of
                             Some previous \<Rightarrow>
                               self\<lparr>check_results := Some (merge previous check_result [])\<rparr>
                           | None \<Rightarrow> self\<lparr>check_results := Some check_result\<rparr>)
                     else self)
              in Inr (result check_result, self1))"

section \<open>The suite execution orchestrator\<close>

text \<open>
  A hook or case body is user code. One invocation may raise an exception of class
  \<^verbatim>\<open>Exception\<close> or return, may call \<^verbatim>\<open>self.stop()\<close>, takes time, and changes
  the world.
\<close>

record 'w hook_result =
  raised :: "py_exception option"
  stop_called :: bool
  duration :: nat
  world_after :: 'w

type_synonym 'w hook = "'w \<Rightarrow> 'w hook_result"

text \<open>
  The keyword arguments handed to every hook: the environment and, for the hooks of a
  case, the case name. The entry \<^verbatim>\<open>node\<close> is the environment's default node and is
  reached through the environment.
\<close>

record 'c test_kwargs =
  kw_environment :: "'c Environment"
  kw_case_name :: "string option"

text \<open>
  A suite object: the four hooks and, by name, the test methods that
  \<^verbatim>\<open>getattr(self, case_name)\<close> finds. \<^verbatim>\<open>__suite_method\<close> reads the
  \<^verbatim>\<open>__name__\<close> of the method it is given, so the suite also has the names of the
  functions bound as \<^verbatim>\<open>before_suite\<close> and \<^verbatim>\<open>after_suite\<close>.
\<close>

record ('w, 'c) TestSuite =
  before_suite :: "'c test_kwargs \<Rightarrow> 'w hook"
  after_suite :: "'c test_kwargs \<Rightarrow> 'w hook"
  before_case :: "'c test_kwargs \<Rightarrow> 'w hook"
  after_case :: "'c test_kwargs \<Rightarrow> 'w hook"
  test_methods :: "string \<Rightarrow> ('c test_kwargs \<Rightarrow> 'w hook) option"
  before_suite_name :: string
  after_suite_name :: string

text \<open>
  One invocation of a hook: the call is recorded, the world and the clock move on, and
  \<^verbatim>\<open>stop()\<close> can only set \<^verbatim>\<open>_should_stop\<close>.
\<close>

definition invoke ::
  "hook_id \<Rightarrow> 'w hook \<Rightarrow> 'w run_state \<Rightarrow> py_exception option \<times> 'w run_state" where
  "invoke h f st =
    (let r = f (world st)
     in (raised r,
         st\<lparr>should_stop := (should_stop st \<or> stop_called r),
            world := world_after r,
            clock := clock st + duration r,
            call_log := call_log st @ [h]\<rparr>))"

text \<open>
  Modelled from the spec: \<^verbatim>\<open>retry_call\<close> belongs to the \<^verbatim>\<open>retry\<close> package and is
  not part of the sources at hand. The spec's bounded retry makes up to \<open>tries\<close>
  attempts one after the other, retries after any exception, and reports only the final
  failure. The package does this in a loop \<^verbatim>\<open>while _tries:\<close> that counts
  \<^verbatim>\<open>_tries\<close> down after a failed attempt and re-raises when zero is reached. With
  zero tries the function is therefore never called, and with a negative number the loop
  has no bound: the result is an option, and \<open>None\<close> stands for a loop that never
  ends.
\<close>

partial_function (option) retry_call ::
  "('s \<Rightarrow> py_exception option \<times> 's) \<Rightarrow> int \<Rightarrow> 's \<Rightarrow> (py_exception option \<times> 's) option" where
  "retry_call f tries s =
    (if tries = 0 then Some (None, s)
     else (case f s of
             (None, s1) \<Rightarrow> Some (None, s1)
           | (Some e, s1) \<Rightarrow>
               if tries - 1 = 0 then Some (Some e, s1) else retry_call f (tries - 1) s1))"

text \<open>
  \<^verbatim>\<open>__suite_method\<close>; \<open>method_name\<close> is \<^verbatim>\<open>method.__name__\<close>. The handler
  is \<^verbatim>\<open>except Exception\<close>, and the exceptions of the model are the objects of that
  class: what the handler does not catch is not a result of a hook here.
\<close>

definition TestSuite_suite_method ::
  "hook_id \<Rightarrow> string \<Rightarrow> 'w hook \<Rightarrow> 'w run_state \<Rightarrow> (bool \<times> string) \<times> 'w run_state" where
  "TestSuite_suite_method h method_name f st =
    (case invoke h f st of
       (None, st1) \<Rightarrow> ((True, []), st1)
     | (Some identifier, st1) \<Rightarrow> ((False, method_name @ '': '' @ exc_str identifier), st1))"

text \<open>\<^verbatim>\<open>__before_case\<close>\<close>

definition TestSuite_before_case ::
  "('w, 'c) TestSuite \<Rightarrow> 'c TestResult \<Rightarrow> 'c test_kwargs \<Rightarrow> 'w run_state
    \<Rightarrow> (bool \<times> 'c TestResult \<times> 'w run_state) option" where
  "TestSuite_before_case self case_result kw st =
    (case retry_call
            (invoke (Before_case (name (metadata (runtime_data case_result))))
               (before_case self kw))
            (retry (runtime_data case_result) + 1) st of
       None \<Rightarrow> None
     | Some (None, st1) \<Rightarrow> Some (True, case_result, st1)
     | Some (Some identifier, st1) \<Rightarrow>
         (let (cr, st2) =
                set_status SKIPPED (Str (''before_case: '' @ exc_str identifier)) case_result st1
          in Some (False, cr, st2)))"

text \<open>\<^verbatim>\<open>__after_case\<close>\<close>

definition TestSuite_after_case ::
  "('w, 'c) TestSuite \<Rightarrow> 'c TestResult \<Rightarrow> 'c test_kwargs \<Rightarrow> 'w run_state
    \<Rightarrow> 'w run_state option" where
  "TestSuite_after_case self case_result kw st =
    (case retry_call
            (invoke (After_case (name (metadata (runtime_data case_result))))
               (after_case self kw))
            (retry (runtime_data case_result) + 1) st of
       None \<Rightarrow> None
     | Some (_, st1) \<Rightarrow> Some st1)"

text \<open>
  \<^verbatim>\<open>__run_case\<close>. The lookup of the test method stands before the
  \<^verbatim>\<open>try\<close>, so a missing method raises out of the function.
\<close>

definition TestSuite_run_case ::
  "('w, 'c) TestSuite \<Rightarrow> 'c TestResult \<Rightarrow> 'c test_kwargs \<Rightarrow> 'w run_state
    \<Rightarrow> (py_error + 'c TestResult \<times> 'w run_state) option" where
  "TestSuite_run_case self case_result kw st =
    (let case_name = name (metadata (runtime_data case_result))
     in case test_methods self case_name of
          None \<Rightarrow> Some (Inl (AttributeError case_name))
        | Some test_method \<Rightarrow>
            (case retry_call (invoke (Test_method case_name) (test_method kw))
                    (retry (runtime_data case_result) + 1) st of
               None \<Rightarrow> None
             | Some (None, st1) \<Rightarrow> Some (Inr (set_status PASSED (Str []) case_result st1))
             | Some (Some identifier, st1) \<Rightarrow>
                 Some (Inr (handle_exception identifier [] case_result st1))))"

text \<open>
  One round of the loop in \<^verbatim>\<open>start\<close>, up to the test of \<^verbatim>\<open>_should_stop\<close>.
\<close>

definition start_case ::
  "('w, 'c) TestSuite \<Rightarrow> 'c test_kwargs \<Rightarrow> bool \<Rightarrow> string \<Rightarrow> 'c TestResult \<Rightarrow> 'w run_state
    \<Rightarrow> (py_error + 'c TestResult \<times> 'w run_state) option" where
  "start_case self test_kw is_suite_continue suite_error_message case_result st =
    (let case_name = name (metadata (runtime_data case_result));
         cr1 = case_result\<lparr>environment := Some (kw_environment test_kw)\<rparr>;
         case_kwargs = test_kw\<lparr>kw_case_name := Some case_name\<rparr>;
         (cr2, st2) = set_status RUNNING (Str []) cr1 st
     in case (if is_suite_continue
              then TestSuite_before_case self cr2 case_kwargs st2
              else (let (cr, s) = set_status SKIPPED (Str suite_error_message) cr2 st2
                    in Some (False, cr, s))) of
          None \<Rightarrow> None
        | Some (is_continue, cr3, st3) \<Rightarrow>
            (case (if is_continue then TestSuite_run_case self cr3 case_kwargs st3
                   else Some (Inr (cr3, st3))) of
               None \<Rightarrow> None
             | Some (Inl err) \<Rightarrow> Some (Inl err)
             | Some (Inr (cr4, st4)) \<Rightarrow>
                 (case TestSuite_after_case self cr4 case_kwargs st4 of
                    None \<Rightarrow> None
                  | Some st5 \<Rightarrow> Some (Inr (cr4, st5)))))"

text \<open>
  The loop over \<^verbatim>\<open>case_results\<close>: it is left after the round in which
  \<^verbatim>\<open>_should_stop\<close> is found set, and the records not reached stay as they are.
\<close>

fun start_loop ::
  "('w, 'c) TestSuite \<Rightarrow> 'c test_kwargs \<Rightarrow> bool \<Rightarrow> string \<Rightarrow> 'c TestResult list \<Rightarrow> 'w run_state
    \<Rightarrow> (py_error + 'c TestResult list \<times> 'w run_state) option" where
  "start_loop self test_kw c m [] st = Some (Inr ([], st))"
| "start_loop self test_kw c m (case_result # rest) st =
    (case start_case self test_kw c m case_result st of
       None \<Rightarrow> None
     | Some (Inl err) \<Rightarrow> Some (Inl err)
     | Some (Inr (cr, st1)) \<Rightarrow>
         if should_stop st1 then Some (Inr (cr # rest, st1))
         else (case start_loop self test_kw c m rest st1 of
                 None \<Rightarrow> None
               | Some (Inl err) \<Rightarrow> Some (Inl err)
               | Some (Inr (rest1, st2)) \<Rightarrow> Some (Inr (cr # rest1, st2))))"

text \<open>
  \<^verbatim>\<open>start\<close>. It returns the environment, the records and the state as the run
  leaves them.
\<close>

definition TestSuite_start ::
  "('w, 'c) TestSuite \<Rightarrow> 'c Environment \<Rightarrow> 'c TestResult list \<Rightarrow> 'w run_state
    \<Rightarrow> (py_error + 'c Environment \<times> 'c TestResult list \<times> 'w run_state) option" where
  "TestSuite_start self env0 case_results st =
    (let env = env0\<lparr>is_new := False\<rparr>;
         test_kwargs = \<lparr>kw_environment = env, kw_case_name = None\<rparr>;
         ((is_suite_continue, suite_error_message), st1) =
           TestSuite_suite_method Before_suite (before_suite_name self)
             (before_suite self test_kwargs) st
     in case start_loop self test_kwargs is_suite_continue suite_error_message case_results st1 of
          None \<Rightarrow> None
        | Some (Inl err) \<Rightarrow> Some (Inl err)
        | Some (Inr (crs, st2)) \<Rightarrow>
            (let (r, st3) =
                   TestSuite_suite_method After_suite (after_suite_name self)
                     (after_suite self test_kwargs) st2
             in Some (Inr (env, crs, st3))))"

text \<open>\<^verbatim>\<open>stop\<close>\<close>

definition TestSuite_stop :: "'w run_state \<Rightarrow> 'w run_state" where
  "TestSuite_stop st = st\<lparr>should_stop := True\<rparr>"

section \<open>The metadata registry\<close>

text \<open>
  \<^verbatim>\<open>TestSuiteMetadata\<close>. The source links a suite and its cases by object
  references in both directions; here a suite names its cases by their keys in
  \<^verbatim>\<open>_all_cases\<close>, and a case names its suite by its key in \<^verbatim>\<open>_all_suites\<close>.
\<close>

record 'c TestSuiteMetadata =
  suite_name :: string
  test_class_name :: string
  cases :: "string list"
  tags :: "string list"
  area :: string
  category :: string
  suite_description :: string
  suite_requirement :: "'c TestCaseRequirement"

text \<open>
  The two module-level dictionaries \<^verbatim>\<open>_all_suites\<close> and \<^verbatim>\<open>_all_cases\<close>, in
  insertion order.
\<close>

record 'c registry =
  all_suites :: "(string \<times> 'c TestSuiteMetadata) list"
  all_cases :: "(string \<times> 'c TestCaseMetadata) list"

text \<open>\<^verbatim>\<open>_add_case_to_suite\<close>, on the keys of the suite and of the case.\<close>

definition add_case_to_suite :: "string \<Rightarrow> string \<Rightarrow> 'c registry \<Rightarrow> 'c registry" where
  "add_case_to_suite suite_key case_key reg =
    reg\<lparr>all_cases := AList.map_entry case_key (\<lambda>c. c\<lparr>suite := Some suite_key\<rparr>) (all_cases reg),
        all_suites :=
          AList.map_entry suite_key (\<lambda>s. s\<lparr>cases := cases s @ [case_key]\<rparr>) (all_suites reg)\<rparr>"

text \<open>
  \<^verbatim>\<open>_add_suite_metadata\<close>. The result is the exception raised, if any, and the
  registry as the call leaves it. The text of the exception stops after the key: the
  source appends the printed forms of the two metadata objects.
\<close>

definition add_suite_metadata ::
  "'c TestSuiteMetadata \<Rightarrow> 'c registry \<Rightarrow> py_error option \<times> 'c registry" where
  "add_suite_metadata md reg =
    (let key = (if suite_name md \<noteq> [] then suite_name md else test_class_name md)
     in case map_of (all_suites reg) key of
          Some exist_metadata \<Rightarrow>
            (Some (LisaException (''duplicate test class name: '' @ key)), reg)
        | None \<Rightarrow>
            (let reg1 = reg\<lparr>all_suites := all_suites reg @ [(key, md)]\<rparr>;
                 class_prefix = key @ ''.''
             in (None,
                 foldl (\<lambda>r entry.
                          if prefix class_prefix (full_name (snd entry))
                          then add_case_to_suite key (fst entry) r else r)
                   reg1 (all_cases reg1))))"

text \<open>\<^verbatim>\<open>_add_case_metadata\<close>\<close>

definition add_case_metadata ::
  "'c TestCaseMetadata \<Rightarrow> 'c registry \<Rightarrow> py_error option \<times> 'c registry" where
  "add_case_metadata md reg =
    (let fn = full_name md
     in case map_of (all_cases reg) fn of
          Some existing \<Rightarrow> (Some (LisaException (''duplicate test class name: '' @ fn)), reg)
        | None \<Rightarrow>
            (let reg1 = reg\<lparr>all_cases := all_cases reg @ [(fn, md)]\<rparr>;
                 class_name = takeWhile (\<lambda>ch. ch \<noteq> CHR ''.'') fn
             in case map_of (all_suites reg1) class_name of
                  Some test_suite \<Rightarrow> (None, add_case_to_suite class_name fn reg1)
                | None \<Rightarrow> (None, reg1)))"

section \<open>A sample suite, its records and its registry\<close>

text \<open>
  \<^verbatim>\<open>TestCaseRuntimeData.__init__\<close>: the runtime settings of a case start from
  these values.
\<close>

definition TestCaseRuntimeData_init :: "'c TestCaseMetadata \<Rightarrow> 'c TestCaseRuntimeData" where
  "TestCaseRuntimeData_init md =
    \<lparr>metadata = md, select_action = [], times = 1, retry = 0, use_new_environment = False,
     ignore_failure = False, environment_name = []\<rparr>"

text \<open>
  Hooks that return, and hooks that raise a given exception; each takes one tick and
  leaves the world as it is.
\<close>

definition returns :: "'w hook" where
  "returns w = \<lparr>raised = None, stop_called = False, duration = 1, world_after = w\<rparr>"

definition raises :: "py_exception \<Rightarrow> 'w hook" where
  "raises e w = \<lparr>raised = Some e, stop_called = False, duration = 1, world_after = w\<rparr>"

text \<open>
  An exception that belongs to none of the three signal classes, and a keep-not-run
  signal.
\<close>

definition generic_error :: "string \<Rightarrow> py_exception" where
  "generic_error s =
    \<lparr>is_SkippedException = False, is_NotRunException = False, is_PassedException = False,
     exc_str = s\<rparr>"

definition not_run_signal :: "string \<Rightarrow> py_exception" where
  "not_run_signal s =
    \<lparr>is_SkippedException = False, is_NotRunException = True, is_PassedException = False,
     exc_str = s\<rparr>"

text \<open>
  The suite \<^verbatim>\<open>HelloWorld\<close> of \<^verbatim>\<open>examples/testsuites/helloworld.py\<close> with
  its cases \<^verbatim>\<open>hello\<close> and \<^verbatim>\<open>bye\<close>: every hook and every case returns. The
  world of the samples is a number, which the hooks below use as a counter.
\<close>

definition accepts_all :: "unit space" where
  "accepts_all = \<lparr>space_truthy = True, space_check = (\<lambda>c. \<lparr>result = True, reasons = []\<rparr>)\<rparr>"

definition any_environment :: "unit TestCaseRequirement" where
  "any_environment = \<lparr>req_environment = Some accepts_all, req_os_type = None\<rparr>"

definition hello_metadata :: "unit TestCaseMetadata" where
  "hello_metadata =
    \<lparr>name = ''hello'', full_name = ''HelloWorld.hello'', priority = 0, description = [],
     requirement = any_environment, suite = None\<rparr>"

definition bye_metadata :: "unit TestCaseMetadata" where
  "bye_metadata =
    \<lparr>name = ''bye'', full_name = ''HelloWorld.bye'', priority = 1, description = [],
     requirement = any_environment, suite = None\<rparr>"

definition idle :: "nat run_state" where
  "idle = \<lparr>should_stop = False, world = 0, clock = 0, notified = [], call_log = []\<rparr>"

definition hello_result :: "unit TestResult" where
  "hello_result = fst (TestResult_init ''1'' (TestCaseRuntimeData_init hello_metadata) idle)"

definition bye_result :: "unit TestResult" where
  "bye_result = fst (TestResult_init ''2'' (TestCaseRuntimeData_init bye_metadata) idle)"

definition local_environment :: "unit Environment" where
  "local_environment =
    \<lparr>is_new = True, env_status = Connected, nodes = [\<lparr>os_mro = [''Ubuntu'', ''Linux'', ''Posix'']\<rparr>],
     capability = (), get_information = [(''os'', ''Ubuntu'')]\<rparr>"

definition run_kwargs :: "unit test_kwargs" where
  "run_kwargs = \<lparr>kw_environment = local_environment\<lparr>is_new := False\<rparr>, kw_case_name = None\<rparr>"

definition HelloWorld :: "(nat, unit) TestSuite" where
  "HelloWorld =
    \<lparr>before_suite = (\<lambda>kw. returns), after_suite = (\<lambda>kw. returns),
     before_case = (\<lambda>kw. returns), after_case = (\<lambda>kw. returns),
     test_methods = [''hello'' \<mapsto> (\<lambda>kw. returns), ''bye'' \<mapsto> (\<lambda>kw. returns)],
     before_suite_name = ''before_suite'', after_suite_name = ''after_suite''\<rparr>"

definition HelloWorld_metadata :: "unit TestSuiteMetadata" where
  "HelloWorld_metadata =
    \<lparr>suite_name = ''HelloWorld'', test_class_name = ''HelloWorld'', cases = [], tags = [],
     area = ''demo'', category = ''functional'', suite_description = [],
     suite_requirement = any_environment\<rparr>"

definition loaded_registry :: "unit registry" where
  "loaded_registry =
    snd (add_suite_metadata HelloWorld_metadata
          (snd (add_case_metadata bye_metadata
                 (snd (add_case_metadata hello_metadata \<lparr>all_suites = [], all_cases = []\<rparr>)))))"

text \<open>
  Variations: a record that allows two retries, a record whose failures are ignored, a
  body of \<^verbatim>\<open>hello\<close> that fails on its first two attempts, a body of
  \<^verbatim>\<open>bye\<close> that calls \<^verbatim>\<open>stop()\<close>, a suite setup that fails, one that calls
  \<^verbatim>\<open>stop()\<close> before it fails, and a cleanup that fails.
\<close>

definition retrying_hello :: "unit TestResult" where
  "retrying_hello = hello_result\<lparr>runtime_data := (runtime_data hello_result)\<lparr>retry := 2\<rparr>\<rparr>"

definition lenient_hello :: "unit TestResult" where
  "lenient_hello = hello_result\<lparr>runtime_data := (runtime_data hello_result)\<lparr>ignore_failure := True\<rparr>\<rparr>"

definition flaky_hello :: "unit test_kwargs \<Rightarrow> nat hook" where
  "flaky_hello kw w =
     (if w < 2 then raises (generic_error ''not yet'') (w + 1) else returns (w + 1))"

definition flaky_suite :: "(nat, unit) TestSuite" where
  "flaky_suite = HelloWorld\<lparr>test_methods := (test_methods HelloWorld)(''hello'' \<mapsto> flaky_hello)\<rparr>"

definition stopping_bye :: "unit test_kwargs \<Rightarrow> nat hook" where
  "stopping_bye kw w = (returns w)\<lparr>stop_called := True\<rparr>"

definition stopping_suite :: "(nat, unit) TestSuite" where
  "stopping_suite = HelloWorld\<lparr>test_methods := (test_methods HelloWorld)(''bye'' \<mapsto> stopping_bye)\<rparr>"

definition failing_setup :: "unit test_kwargs \<Rightarrow> nat hook" where
  "failing_setup kw = raises (generic_error ''no network'')"

definition failing_suite :: "(nat, unit) TestSuite" where
  "failing_suite = HelloWorld\<lparr>before_suite := failing_setup\<rparr>"

definition stopping_setup :: "unit test_kwargs \<Rightarrow> nat hook" where
  "stopping_setup kw w = (raises (generic_error ''no network'') w)\<lparr>stop_called := True\<rparr>"

definition failing_cleanup :: "unit test_kwargs \<Rightarrow> nat hook" where
  "failing_cleanup kw = raises (generic_error ''cleanup failed'')"

text \<open>
  A case that requires Linux, an environment whose two nodes both run something else,
  and an environment whose first node runs Linux and whose other two do not.
\<close>

definition linux_only :: "string list space" where
  "linux_only =
    \<lparr>space_truthy = True,
     space_check = (\<lambda>mro. if ''Linux'' \<in> set mro then \<lparr>result = True, reasons = []\<rparr>
                          else \<lparr>result = False, reasons = [''not Linux: '' @ concat (take 1 mro)]\<rparr>)\<rparr>"

definition linux_hello_result :: "unit TestResult" where
  "linux_hello_result =
    fst (TestResult_init ''3''
          (TestCaseRuntimeData_init
            (hello_metadata\<lparr>requirement := any_environment\<lparr>req_os_type := Some linux_only\<rparr>\<rparr>))
          idle)"

definition mixed_environment :: "unit Environment" where
  "mixed_environment =
    \<lparr>is_new = True, env_status = Connected,
     nodes = [\<lparr>os_mro = [''Windows'']\<rparr>, \<lparr>os_mro = [''FreeBSD'', ''BSD'', ''Posix'']\<rparr>],
     capability = (), get_information = []\<rparr>"

definition three_node_environment :: "unit Environment" where
  "three_node_environment =
    \<lparr>is_new = True, env_status = Connected,
     nodes = [\<lparr>os_mro = [''Ubuntu'', ''Linux'', ''Posix'']\<rparr>, \<lparr>os_mro = [''Windows'']\<rparr>,
              \<lparr>os_mro = [''FreeBSD'', ''BSD'', ''Posix'']\<rparr>],
     capability = (), get_information = []\<rparr>"

section \<open>Facts about the result state machine\<close>

lemma send_record_fields:
  "status (fst (send_result_message r st)) = status r"
  "message (fst (send_result_message r st)) = message r"
  "runtime_data (fst (send_result_message r st)) = runtime_data r"
  "ident (fst (send_result_message r st)) = ident r"
  "environment (fst (send_result_message r st)) = environment r"
  "timer (fst (send_result_message r st)) = timer r"
  "check_results (fst (send_result_message r st)) = check_results r"
  by (simp_all add: send_result_message_def Let_def split: option.splits)

lemma send_state_fields:
  "should_stop (snd (send_result_message r st)) = should_stop st"
  "world (snd (send_result_message r st)) = world st"
  "clock (snd (send_result_message r st)) = clock st"
  "call_log (snd (send_result_message r st)) = call_log st"
  by (simp_all add: send_result_message_def Let_def split: option.splits)

lemma send_notified:
  "notified (snd (send_result_message r st)) =
     notified st @
       [\<lparr>msg_id = ident (fst (send_result_message r st)),
         msg_type = ''TestResult'',
         msg_name = full_name (metadata (runtime_data (fst (send_result_message r st)))),
         msg_status = status (fst (send_result_message r st)),
         msg_elapsed = elapsed (fst (send_result_message r st)),
         msg_message = take 2048 (message (fst (send_result_message r st))),
         msg_information = dict_update [] (information (fst (send_result_message r st)))\<rparr>]"
  by (simp add: send_result_message_def Let_def split: option.splits)

lemma set_status_record_fields:
  "status (fst (set_status ns m r st)) = ns"
  "runtime_data (fst (set_status ns m r st)) = runtime_data r"
  "ident (fst (set_status ns m r st)) = ident r"
  "environment (fst (set_status ns m r st)) = environment r"
  "check_results (fst (set_status ns m r st)) = check_results r"
  by (simp_all add: set_status_def Let_def send_record_fields)

lemma set_status_message:
  "message (fst (set_status ns m r st)) =
     (if arg_truthy m
      then join_lines ((if message r \<noteq> [] then [message r] else []) @ arg_list m)
      else message r)"
  by (simp add: set_status_def Let_def send_record_fields)

lemma set_status_state_fields:
  "should_stop (snd (set_status ns m r st)) = should_stop st"
  "world (snd (set_status ns m r st)) = world st"
  "clock (snd (set_status ns m r st)) = clock st"
  "call_log (snd (set_status ns m r st)) = call_log st"
  by (simp_all add: set_status_def Let_def send_state_fields)

lemma set_status_statuses:
  "map msg_status (notified (snd (set_status ns m r st))) =
     map msg_status (notified st) @ (if status r = ns then [] else [ns])"
  by (simp add: set_status_def Let_def send_notified send_record_fields)

lemma handle_exception_record_fields:
  "runtime_data (fst (handle_exception e ph r st)) = runtime_data r"
  "status (fst (handle_exception e ph r st)) \<noteq> RUNNING"
  by (simp_all add: handle_exception_def Let_def set_status_record_fields)

lemma handle_exception_status:
  "status (fst (handle_exception e ph r st)) =
     (if is_SkippedException e then SKIPPED
      else if is_NotRunException e then NOTRUN
      else if is_PassedException e then PASSED
      else if ignore_failure (runtime_data r) then ATTEMPTED
      else FAILED)"
  by (simp add: handle_exception_def Let_def set_status_record_fields)

lemma handle_exception_state_fields:
  "should_stop (snd (handle_exception e ph r st)) = should_stop st"
  "call_log (snd (handle_exception e ph r st)) = call_log st"
  by (simp_all add: handle_exception_def Let_def set_status_state_fields)

lemma handle_exception_statuses:
  "map msg_status (notified (snd (handle_exception e ph r st))) =
     map msg_status (notified st) @
       (if status r = status (fst (handle_exception e ph r st)) then []
        else [status (fst (handle_exception e ph r st))])"
  by (simp add: handle_exception_def Let_def set_status_statuses set_status_record_fields)

section \<open>Facts about the bounded retry and the hooks\<close>

text \<open>
  The two cases of the loop of \<^verbatim>\<open>retry_call\<close>, as rewrite rules.
\<close>

lemma retry_call_zero: "retry_call f 0 s = Some (None, s)"
  by (subst retry_call.simps) simp

lemma retry_call_step:
  "tries \<noteq> 0 \<Longrightarrow>
   retry_call f tries s =
     (case f s of
        (None, s1) \<Rightarrow> Some (None, s1)
      | (Some e, s1) \<Rightarrow> if tries = 1 then Some (Some e, s1) else retry_call f (tries - 1) s1)"
  by (subst retry_call.simps) (simp split: prod.splits option.splits)

text \<open>
  With \<open>n + 1\<close> tries the loop ends: it returns the outcome of some attempt
  \<open>k \<le> n\<close>, every earlier attempt raised, and the last attempt is the one that
  returned or the one that used up the tries.
\<close>

lemma retry_call_nat:
  "\<exists>k\<le>n. retry_call f (int n + 1) s = Some (f (((snd \<circ> f) ^^ k) s))
        \<and> (\<forall>i<k. fst (f (((snd \<circ> f) ^^ i) s)) \<noteq> None)
        \<and> (fst (f (((snd \<circ> f) ^^ k) s)) \<noteq> None \<longrightarrow> k = n)"
proof (induction n arbitrary: s)
  case 0
  show ?case
    by (cases "f s"; cases "fst (f s)") (subst retry_call_step, simp, simp add: add.commute)+
next
  case (Suc n)
  show ?case
  proof (cases "fst (f s)")
    case None
    then have "retry_call f (int (Suc n) + 1) s = Some (f s)"
      by (cases "f s") (subst retry_call_step, simp, simp add: add.commute)
    then show ?thesis using None
      by (intro exI[of _ 0]) simp
  next
    case (Some e)
    then have step: "retry_call f (int (Suc n) + 1) s = retry_call f (int n + 1) (snd (f s))"
      by (cases "f s") (subst retry_call_step, simp, simp add: add.commute)
    from Suc.IH[of "snd (f s)"] obtain k where k: "k \<le> n"
      "retry_call f (int n + 1) (snd (f s)) = Some (f (((snd \<circ> f) ^^ k) (snd (f s))))"
      "\<forall>i<k. fst (f (((snd \<circ> f) ^^ i) (snd (f s)))) \<noteq> None"
      "fst (f (((snd \<circ> f) ^^ k) (snd (f s)))) \<noteq> None \<longrightarrow> k = n"
      by blast
    have shift: "\<And>j. ((snd \<circ> f) ^^ j) (snd (f s)) = ((snd \<circ> f) ^^ Suc j) s"
      by (simp add: funpow_swap1)
    have "\<forall>i<Suc k. fst (f (((snd \<circ> f) ^^ i) s)) \<noteq> None"
    proof (intro allI impI)
      fix i assume "i < Suc k"
      show "fst (f (((snd \<circ> f) ^^ i) s)) \<noteq> None"
      proof (cases i)
        case 0 then show ?thesis using Some by simp
      next
        case (Suc j)
        then have "j < k" using \<open>i < Suc k\<close> by simp
        then show ?thesis using k(3) shift Suc by metis
      qed
    qed
    moreover have "retry_call f (int (Suc n) + 1) s = Some (f (((snd \<circ> f) ^^ Suc k) s))"
      using step k(2) shift by metis
    moreover have "fst (f (((snd \<circ> f) ^^ Suc k) s)) \<noteq> None \<longrightarrow> Suc k = Suc n"
      using k(4) shift by metis
    ultimately show ?thesis using k(1)
      by (intro exI[of _ "Suc k"]) blast
  qed
qed

lemma retry_call_bounded:
  assumes "0 \<le> r"
  shows "\<exists>k\<le>nat r. retry_call f (r + 1) s = Some (f (((snd \<circ> f) ^^ k) s))
        \<and> (\<forall>i<k. fst (f (((snd \<circ> f) ^^ i) s)) \<noteq> None)
        \<and> (fst (f (((snd \<circ> f) ^^ k) s)) \<noteq> None \<longrightarrow> k = nat r)"
  using retry_call_nat[of "nat r" f s] assms by simp

lemma invoke_state_fields:
  "call_log (snd (invoke h f st)) = call_log st @ [h]"
  "notified (snd (invoke h f st)) = notified st"
  "should_stop (snd (invoke h f st)) = (should_stop st \<or> stop_called (f (world st)))"
  "fst (invoke h f st) = raised (f (world st))"
  by (simp_all add: invoke_def Let_def)

lemma invoke_iter_fields:
  "call_log (((snd \<circ> invoke h f) ^^ k) st) = call_log st @ replicate k h"
  "notified (((snd \<circ> invoke h f) ^^ k) st) = notified st"
  "should_stop st \<Longrightarrow> should_stop (((snd \<circ> invoke h f) ^^ k) st)"
  by (induction k) (simp_all add: invoke_state_fields replicate_append_same)

lemma after_case_effect:
  assumes "0 \<le> retry (runtime_data cr)"
  shows "\<exists>st5 k. TestSuite_after_case ts cr kw st = Some st5
          \<and> k \<le> nat (retry (runtime_data cr))
          \<and> notified st5 = notified st
          \<and> call_log st5 = call_log st @ replicate (Suc k) (After_case (name (metadata (runtime_data cr))))
          \<and> (should_stop st \<longrightarrow> should_stop st5)"
proof -
  let ?h = "After_case (name (metadata (runtime_data cr)))"
  let ?f = "invoke ?h (after_case ts kw)"
  from retry_call_bounded[OF assms, of ?f st] obtain k where
    k: "k \<le> nat (retry (runtime_data cr))"
       "retry_call ?f (retry (runtime_data cr) + 1) st = Some (?f (((snd \<circ> ?f) ^^ k) st))"
    by blast
  let ?s = "((snd \<circ> ?f) ^^ k) st"
  have "TestSuite_after_case ts cr kw st = Some (snd (?f ?s))"
    using k(2) by (simp add: TestSuite_after_case_def split_def)
  moreover have "notified (snd (?f ?s)) = notified st"
    by (simp add: invoke_state_fields invoke_iter_fields)
  moreover have "call_log (snd (?f ?s)) = call_log st @ replicate (Suc k) ?h"
    by (simp add: invoke_state_fields invoke_iter_fields replicate_append_same)
  moreover have "should_stop st \<longrightarrow> should_stop (snd (?f ?s))"
    by (simp add: invoke_state_fields invoke_iter_fields)
  ultimately show ?thesis using k(1) by blast
qed

lemma before_case_effect:
  assumes "0 \<le> retry (runtime_data cr)"
  shows "\<exists>b cr3 st3 k. TestSuite_before_case ts cr kw st = Some (b, cr3, st3)
          \<and> k \<le> nat (retry (runtime_data cr))
          \<and> runtime_data cr3 = runtime_data cr
          \<and> call_log st3 = call_log st @ replicate (Suc k) (Before_case (name (metadata (runtime_data cr))))
          \<and> (should_stop st \<longrightarrow> should_stop st3)
          \<and> (if b then cr3 = cr \<and> notified st3 = notified st
              else status cr3 = SKIPPED
                 \<and> map msg_status (notified st3) =
                     map msg_status (notified st) @ (if status cr = SKIPPED then [] else [SKIPPED]))"
proof -
  let ?h = "Before_case (name (metadata (runtime_data cr)))"
  let ?f = "invoke ?h (before_case ts kw)"
  from retry_call_bounded[OF assms, of ?f st] obtain k where
    k: "k \<le> nat (retry (runtime_data cr))"
       "retry_call ?f (retry (runtime_data cr) + 1) st = Some (?f (((snd \<circ> ?f) ^^ k) st))"
    by blast
  let ?s = "((snd \<circ> ?f) ^^ k) st"
  have log: "call_log (snd (?f ?s)) = call_log st @ replicate (Suc k) ?h"
    by (simp add: invoke_state_fields invoke_iter_fields replicate_append_same)
  have ntf: "notified (snd (?f ?s)) = notified st"
    by (simp add: invoke_state_fields invoke_iter_fields)
  have stop: "should_stop st \<longrightarrow> should_stop (snd (?f ?s))"
    by (simp add: invoke_state_fields invoke_iter_fields)
  show ?thesis
  proof (cases "fst (?f ?s)")
    case None
    then have "TestSuite_before_case ts cr kw st = Some (True, cr, snd (?f ?s))"
      using k(2) by (cases "?f ?s") (simp add: TestSuite_before_case_def)
    then show ?thesis using k(1) log ntf stop
      by (intro exI[of _ True] exI[of _ cr] exI[of _ "snd (?f ?s)"] exI[of _ k]) simp
  next
    case (Some e)
    let ?r = "set_status SKIPPED (Str (''before_case: '' @ exc_str e)) cr (snd (?f ?s))"
    from Some have run: "TestSuite_before_case ts cr kw st = Some (False, fst ?r, snd ?r)"
      using k(2) by (cases "?f ?s") (simp add: TestSuite_before_case_def split_def)
    have "call_log (snd ?r) = call_log st @ replicate (Suc k) ?h"
      using log by (simp add: set_status_state_fields)
    moreover have "should_stop st \<longrightarrow> should_stop (snd ?r)"
      using stop by (simp add: set_status_state_fields)
    moreover have "map msg_status (notified (snd ?r)) =
        map msg_status (notified st) @ (if status cr = SKIPPED then [] else [SKIPPED])"
      using ntf by (simp add: set_status_statuses)
    moreover have "status (fst ?r) = SKIPPED" "runtime_data (fst ?r) = runtime_data cr"
      by (simp_all add: set_status_record_fields)
    ultimately show ?thesis using k(1) run
      by (intro exI[of _ False] exI[of _ "fst ?r"] exI[of _ "snd ?r"] exI[of _ k]) simp
  qed
qed

lemma before_case_shape:
  assumes "0 \<le> retry (runtime_data cr)"
  shows "\<exists>j\<le>nat (retry (runtime_data cr)).
          TestSuite_before_case ts cr kw st =
            Some (case fst (invoke (Before_case (name (metadata (runtime_data cr)))) (before_case ts kw)
                        (((snd \<circ> invoke (Before_case (name (metadata (runtime_data cr)))) (before_case ts kw)) ^^ j) st)) of
                   None \<Rightarrow> (True, cr,
                     snd (invoke (Before_case (name (metadata (runtime_data cr)))) (before_case ts kw)
                        (((snd \<circ> invoke (Before_case (name (metadata (runtime_data cr)))) (before_case ts kw)) ^^ j) st)))
                 | Some e \<Rightarrow> (False, set_status SKIPPED (Str (''before_case: '' @ exc_str e)) cr
                     (snd (invoke (Before_case (name (metadata (runtime_data cr)))) (before_case ts kw)
                        (((snd \<circ> invoke (Before_case (name (metadata (runtime_data cr)))) (before_case ts kw)) ^^ j) st)))))
        \<and> (\<forall>i<j. fst (invoke (Before_case (name (metadata (runtime_data cr)))) (before_case ts kw)
                        (((snd \<circ> invoke (Before_case (name (metadata (runtime_data cr)))) (before_case ts kw)) ^^ i) st)) \<noteq> None)
        \<and> (fst (invoke (Before_case (name (metadata (runtime_data cr)))) (before_case ts kw)
                        (((snd \<circ> invoke (Before_case (name (metadata (runtime_data cr)))) (before_case ts kw)) ^^ j) st)) \<noteq> None
             \<longrightarrow> j = nat (retry (runtime_data cr)))"
proof -
  let ?f = "invoke (Before_case (name (metadata (runtime_data cr)))) (before_case ts kw)"
  from retry_call_bounded[OF assms, of ?f st] obtain j where
    j: "j \<le> nat (retry (runtime_data cr))"
       "retry_call ?f (retry (runtime_data cr) + 1) st = Some (?f (((snd \<circ> ?f) ^^ j) st))"
       "\<forall>i<j. fst (?f (((snd \<circ> ?f) ^^ i) st)) \<noteq> None"
       "fst (?f (((snd \<circ> ?f) ^^ j) st)) \<noteq> None \<longrightarrow> j = nat (retry (runtime_data cr))"
    by blast
  have "TestSuite_before_case ts cr kw st =
      Some (case fst (?f (((snd \<circ> ?f) ^^ j) st)) of
              None \<Rightarrow> (True, cr, snd (?f (((snd \<circ> ?f) ^^ j) st)))
            | Some e \<Rightarrow> (False, set_status SKIPPED (Str (''before_case: '' @ exc_str e)) cr
                          (snd (?f (((snd \<circ> ?f) ^^ j) st)))))"
    using j(2)
    by (cases "?f (((snd \<circ> ?f) ^^ j) st)"; cases "fst (?f (((snd \<circ> ?f) ^^ j) st))")
       (simp_all add: TestSuite_before_case_def split_def)
  then show ?thesis using j(1,3,4) by blast
qed

lemma run_case_shape:
  assumes "0 \<le> retry (runtime_data cr)"
      and "test_methods ts (name (metadata (runtime_data cr))) = Some body"
  shows "\<exists>k\<le>nat (retry (runtime_data cr)).
          TestSuite_run_case ts cr kw st =
            Some (Inr (case fst (invoke (Test_method (name (metadata (runtime_data cr)))) (body kw)
                        (((snd \<circ> invoke (Test_method (name (metadata (runtime_data cr)))) (body kw)) ^^ k) st)) of
                   None \<Rightarrow> set_status PASSED (Str []) cr
                     (snd (invoke (Test_method (name (metadata (runtime_data cr)))) (body kw)
                        (((snd \<circ> invoke (Test_method (name (metadata (runtime_data cr)))) (body kw)) ^^ k) st)))
                 | Some e \<Rightarrow> handle_exception e [] cr
                     (snd (invoke (Test_method (name (metadata (runtime_data cr)))) (body kw)
                        (((snd \<circ> invoke (Test_method (name (metadata (runtime_data cr)))) (body kw)) ^^ k) st)))))
        \<and> (\<forall>i<k. fst (invoke (Test_method (name (metadata (runtime_data cr)))) (body kw)
                        (((snd \<circ> invoke (Test_method (name (metadata (runtime_data cr)))) (body kw)) ^^ i) st)) \<noteq> None)
        \<and> (fst (invoke (Test_method (name (metadata (runtime_data cr)))) (body kw)
                        (((snd \<circ> invoke (Test_method (name (metadata (runtime_data cr)))) (body kw)) ^^ k) st)) \<noteq> None
             \<longrightarrow> k = nat (retry (runtime_data cr)))"
proof -
  let ?f = "invoke (Test_method (name (metadata (runtime_data cr)))) (body kw)"
  from retry_call_bounded[OF assms(1), of ?f st] obtain k where
    k: "k \<le> nat (retry (runtime_data cr))"
       "retry_call ?f (retry (runtime_data cr) + 1) st = Some (?f (((snd \<circ> ?f) ^^ k) st))"
       "\<forall>i<k. fst (?f (((snd \<circ> ?f) ^^ i) st)) \<noteq> None"
       "fst (?f (((snd \<circ> ?f) ^^ k) st)) \<noteq> None \<longrightarrow> k = nat (retry (runtime_data cr))"
    by blast
  have "TestSuite_run_case ts cr kw st =
      Some (Inr (case fst (?f (((snd \<circ> ?f) ^^ k) st)) of
                   None \<Rightarrow> set_status PASSED (Str []) cr (snd (?f (((snd \<circ> ?f) ^^ k) st)))
                 | Some e \<Rightarrow> handle_exception e [] cr (snd (?f (((snd \<circ> ?f) ^^ k) st)))))"
    using k(2) assms(2)
    by (cases "?f (((snd \<circ> ?f) ^^ k) st)"; cases "fst (?f (((snd \<circ> ?f) ^^ k) st))")
       (simp_all add: TestSuite_run_case_def Let_def)
  then show ?thesis using k(1,3,4) by blast
qed

lemma run_case_effect:
  assumes "0 \<le> retry (runtime_data cr)"
      and "test_methods ts (name (metadata (runtime_data cr))) = Some body"
  shows "\<exists>cr4 st4 k. TestSuite_run_case ts cr kw st = Some (Inr (cr4, st4))
          \<and> k \<le> nat (retry (runtime_data cr))
          \<and> runtime_data cr4 = runtime_data cr
          \<and> status cr4 \<noteq> RUNNING
          \<and> call_log st4 = call_log st @ replicate (Suc k) (Test_method (name (metadata (runtime_data cr))))
          \<and> (should_stop st \<longrightarrow> should_stop st4)
          \<and> map msg_status (notified st4) =
               map msg_status (notified st) @ (if status cr = status cr4 then [] else [status cr4])"
proof -
  let ?f = "invoke (Test_method (name (metadata (runtime_data cr)))) (body kw)"
  from run_case_shape[OF assms, of kw st] obtain k where
    k: "k \<le> nat (retry (runtime_data cr))"
       "TestSuite_run_case ts cr kw st =
         Some (Inr (case fst (?f (((snd \<circ> ?f) ^^ k) st)) of
                   None \<Rightarrow> set_status PASSED (Str []) cr (snd (?f (((snd \<circ> ?f) ^^ k) st)))
                 | Some e \<Rightarrow> handle_exception e [] cr (snd (?f (((snd \<circ> ?f) ^^ k) st)))))"
    by blast
  let ?s = "snd (?f (((snd \<circ> ?f) ^^ k) st))"
  let ?r = "case fst (?f (((snd \<circ> ?f) ^^ k) st)) of
                   None \<Rightarrow> set_status PASSED (Str []) cr ?s
                 | Some e \<Rightarrow> handle_exception e [] cr ?s"
  have log: "call_log ?s = call_log st @ replicate (Suc k) (Test_method (name (metadata (runtime_data cr))))"
    by (simp add: invoke_state_fields invoke_iter_fields replicate_append_same)
  have ntf: "notified ?s = notified st"
    by (simp add: invoke_state_fields invoke_iter_fields)
  have stop: "should_stop st \<longrightarrow> should_stop ?s"
    by (simp add: invoke_state_fields invoke_iter_fields)
  have 1: "runtime_data (fst ?r) = runtime_data cr"
    by (simp add: set_status_record_fields handle_exception_record_fields split: option.splits)
  have 2: "status (fst ?r) \<noteq> RUNNING"
    by (simp add: set_status_record_fields handle_exception_record_fields split: option.splits)
  have 3: "call_log (snd ?r) = call_log ?s"
    by (simp add: set_status_state_fields handle_exception_state_fields split: option.splits)
  have 4: "should_stop (snd ?r) = should_stop ?s"
    by (simp add: set_status_state_fields handle_exception_state_fields split: option.splits)
  have 5: "map msg_status (notified (snd ?r)) =
      map msg_status (notified ?s) @ (if status cr = status (fst ?r) then [] else [status (fst ?r)])"
    by (simp add: set_status_statuses set_status_record_fields handle_exception_statuses
          split: option.splits)
  have run: "TestSuite_run_case ts cr kw st = Some (Inr (fst ?r, snd ?r))"
    using k(2) by simp
  show ?thesis
    using run k(1) 1 2 3 4 5 log ntf stop
    by (intro exI[of _ "fst ?r"] exI[of _ "snd ?r"] exI[of _ k]) simp
qed

lemma hooks_independent_of_after_case:
  "TestSuite_before_case (ts\<lparr>after_case := h\<rparr>) cr kw st = TestSuite_before_case ts cr kw st"
  "TestSuite_run_case (ts\<lparr>after_case := h\<rparr>) cr kw st = TestSuite_run_case ts cr kw st"
  by (simp_all add: TestSuite_before_case_def TestSuite_run_case_def)

lemma start_case_unfold:
  "start_case ts kw c m cr st =
    (case (if c
           then TestSuite_before_case ts
                  (fst (set_status RUNNING (Str []) (cr\<lparr>environment := Some (kw_environment kw)\<rparr>) st))
                  (kw\<lparr>kw_case_name := Some (name (metadata (runtime_data cr)))\<rparr>)
                  (snd (set_status RUNNING (Str []) (cr\<lparr>environment := Some (kw_environment kw)\<rparr>) st))
           else Some (False,
                  set_status SKIPPED (Str m)
                    (fst (set_status RUNNING (Str []) (cr\<lparr>environment := Some (kw_environment kw)\<rparr>) st))
                    (snd (set_status RUNNING (Str []) (cr\<lparr>environment := Some (kw_environment kw)\<rparr>) st)))) of
       None \<Rightarrow> None
     | Some (b, cr3, st3) \<Rightarrow>
         (case (if b then TestSuite_run_case ts cr3
                            (kw\<lparr>kw_case_name := Some (name (metadata (runtime_data cr)))\<rparr>) st3
                else Some (Inr (cr3, st3))) of
            None \<Rightarrow> None
          | Some (Inl err) \<Rightarrow> Some (Inl err)
          | Some (Inr (cr4, st4)) \<Rightarrow>
              (case TestSuite_after_case ts cr4
                      (kw\<lparr>kw_case_name := Some (name (metadata (runtime_data cr)))\<rparr>) st4 of
                 None \<Rightarrow> None
               | Some st5 \<Rightarrow> Some (Inr (cr4, st5)))))"
  by (simp add: start_case_def Let_def split_def)

lemma start_case_prefix:
  assumes r: "0 \<le> retry (runtime_data cr)"
      and m: "test_methods ts (name (metadata (runtime_data cr))) = Some body"
  shows "\<exists>cr4 st4.
      (\<forall>h. start_case (ts\<lparr>after_case := h\<rparr>) kw c msg cr st =
            (case TestSuite_after_case (ts\<lparr>after_case := h\<rparr>) cr4
                    (kw\<lparr>kw_case_name := Some (name (metadata (runtime_data cr)))\<rparr>) st4 of
               None \<Rightarrow> None
             | Some st5 \<Rightarrow> Some (Inr (cr4, st5))))
    \<and> runtime_data cr4 = runtime_data cr
    \<and> status cr4 \<noteq> RUNNING
    \<and> map msg_status (notified st4) =
        map msg_status (notified st) @ (if status cr = RUNNING then [] else [RUNNING]) @ [status cr4]
    \<and> (should_stop st \<longrightarrow> should_stop st4)"
proof -
  let ?ckw = "kw\<lparr>kw_case_name := Some (name (metadata (runtime_data cr)))\<rparr>"
  let ?R = "set_status RUNNING (Str []) (cr\<lparr>environment := Some (kw_environment kw)\<rparr>) st"
  have R1: "runtime_data (fst ?R) = runtime_data cr" "status (fst ?R) = RUNNING"
    by (simp_all add: set_status_record_fields)
  have R2: "map msg_status (notified (snd ?R)) =
      map msg_status (notified st) @ (if status cr = RUNNING then [] else [RUNNING])"
    by (simp add: set_status_statuses)
  have R3: "should_stop (snd ?R) = should_stop st"
    by (simp add: set_status_state_fields)
  show ?thesis
  proof (cases c)
    case False
    let ?S = "set_status SKIPPED (Str msg) (fst ?R) (snd ?R)"
    have "\<forall>h. start_case (ts\<lparr>after_case := h\<rparr>) kw c msg cr st =
            (case TestSuite_after_case (ts\<lparr>after_case := h\<rparr>) (fst ?S) ?ckw (snd ?S) of
               None \<Rightarrow> None | Some st5 \<Rightarrow> Some (Inr (fst ?S, st5)))"
      using False by (simp add: start_case_unfold split_def)
    moreover have "runtime_data (fst ?S) = runtime_data cr" "status (fst ?S) \<noteq> RUNNING"
      using R1 by (simp_all add: set_status_record_fields)
    moreover have "map msg_status (notified (snd ?S)) =
        map msg_status (notified st) @ (if status cr = RUNNING then [] else [RUNNING]) @ [status (fst ?S)]"
      using R1 R2 by (simp add: set_status_statuses set_status_record_fields)
    moreover have "should_stop st \<longrightarrow> should_stop (snd ?S)"
      using R3 by (simp add: set_status_state_fields)
    ultimately show ?thesis
      by (intro exI[of _ "fst ?S"] exI[of _ "snd ?S"]) simp
  next
    case True
    have r2: "0 \<le> retry (runtime_data (fst ?R))" using r R1 by simp
    from before_case_effect[OF r2, of ts ?ckw "snd ?R"] obtain b cr3 st3 where
      bc: "TestSuite_before_case ts (fst ?R) ?ckw (snd ?R) = Some (b, cr3, st3)"
      and bc1: "runtime_data cr3 = runtime_data (fst ?R)"
      and bc2: "should_stop (snd ?R) \<longrightarrow> should_stop st3"
      and bc3: "if b then cr3 = fst ?R \<and> notified st3 = notified (snd ?R)
              else status cr3 = SKIPPED
                 \<and> map msg_status (notified st3) =
                     map msg_status (notified (snd ?R)) @ (if status (fst ?R) = SKIPPED then [] else [SKIPPED])"
      by blast
    show ?thesis
    proof (cases b)
      case False
      have "\<forall>h. start_case (ts\<lparr>after_case := h\<rparr>) kw c msg cr st =
            (case TestSuite_after_case (ts\<lparr>after_case := h\<rparr>) cr3 ?ckw st3 of
               None \<Rightarrow> None | Some st5 \<Rightarrow> Some (Inr (cr3, st5)))"
        using True False bc
        by (simp add: start_case_unfold hooks_independent_of_after_case)
      moreover have "runtime_data cr3 = runtime_data cr" "status cr3 \<noteq> RUNNING"
        using bc1 bc3 R1 False by simp_all
      moreover have "map msg_status (notified st3) =
          map msg_status (notified st) @ (if status cr = RUNNING then [] else [RUNNING]) @ [status cr3]"
        using bc3 False R1 R2 by simp
      moreover have "should_stop st \<longrightarrow> should_stop st3"
        using bc2 R3 by simp
      ultimately show ?thesis
        by (intro exI[of _ cr3] exI[of _ st3]) simp
    next
      case b: True
      have r3: "0 \<le> retry (runtime_data cr3)" using r bc1 R1 by simp
      have m3: "test_methods ts (name (metadata (runtime_data cr3))) = Some body"
        using m bc1 R1 by simp
      from run_case_effect[OF r3 m3, of ?ckw st3] obtain cr4 st4 where
        rc: "TestSuite_run_case ts cr3 ?ckw st3 = Some (Inr (cr4, st4))"
        and rc1: "runtime_data cr4 = runtime_data cr3" "status cr4 \<noteq> RUNNING"
        and rc2: "should_stop st3 \<longrightarrow> should_stop st4"
        and rc3: "map msg_status (notified st4) =
               map msg_status (notified st3) @ (if status cr3 = status cr4 then [] else [status cr4])"
        by blast
      have "\<forall>h. start_case (ts\<lparr>after_case := h\<rparr>) kw c msg cr st =
            (case TestSuite_after_case (ts\<lparr>after_case := h\<rparr>) cr4 ?ckw st4 of
               None \<Rightarrow> None | Some st5 \<Rightarrow> Some (Inr (cr4, st5)))"
        using True b bc rc
        by (simp add: start_case_unfold hooks_independent_of_after_case)
      moreover have "runtime_data cr4 = runtime_data cr"
        using rc1 bc1 R1 by simp
      moreover have "map msg_status (notified st4) =
          map msg_status (notified st) @ (if status cr = RUNNING then [] else [RUNNING]) @ [status cr4]"
        using rc3 rc1 bc3 b R1 R2 by auto
      moreover have "should_stop st \<longrightarrow> should_stop st4"
        using rc2 bc2 R3 by simp
      ultimately show ?thesis using rc1(2)
        by (intro exI[of _ cr4] exI[of _ st4]) simp
    qed
  qed
qed

lemma start_case_suite_failed:
  fixes ts :: "('w, 'c) TestSuite" and st :: "'w run_state"
  assumes "0 \<le> retry (runtime_data cr)"
  shows "\<exists>cr' st' k. start_case ts kw False msg cr st = Some (Inr (cr', st'))
         \<and> status cr' = SKIPPED
         \<and> message cr' =
             (if msg = [] then message cr
              else join_lines ((if message cr \<noteq> [] then [message cr] else []) @ [msg]))
         \<and> call_log st' =
             call_log st @ replicate (Suc k) (After_case (name (metadata (runtime_data cr))))
         \<and> (should_stop st \<longrightarrow> should_stop st')"
proof -
  let ?ckw = "kw\<lparr>kw_case_name := Some (name (metadata (runtime_data cr)))\<rparr>"
  let ?R = "set_status RUNNING (Str []) (cr\<lparr>environment := Some (kw_environment kw)\<rparr>) st"
  let ?S = "set_status SKIPPED (Str msg) (fst ?R) (snd ?R)"
  have r4: "0 \<le> retry (runtime_data (fst ?S))"
    using assms by (simp add: set_status_record_fields)
  from after_case_effect[OF r4, of ts ?ckw "snd ?S"] obtain st5 k where
    a: "TestSuite_after_case ts (fst ?S) ?ckw (snd ?S) = Some st5"
       "call_log st5 = call_log (snd ?S) @
          replicate (Suc k) (After_case (name (metadata (runtime_data (fst ?S)))))"
       "should_stop (snd ?S) \<longrightarrow> should_stop st5"
    by blast
  have run: "start_case ts kw False msg cr st = Some (Inr (fst ?S, st5))"
    using a(1) by (simp add: start_case_unfold split_def)
  have 1: "status (fst ?S) = SKIPPED"
    by (simp add: set_status_record_fields)
  have 2: "message (fst ?S) =
      (if msg = [] then message cr
       else join_lines ((if message cr \<noteq> [] then [message cr] else []) @ [msg]))"
    by (simp add: set_status_message)
  have 3: "call_log st5 = call_log st @ replicate (Suc k) (After_case (name (metadata (runtime_data cr))))"
    using a(2) by (simp add: set_status_state_fields set_status_record_fields)
  have 4: "should_stop st \<longrightarrow> should_stop st5"
    using a(3) by (simp add: set_status_state_fields)
  show ?thesis
    using run 1 2 3 4 by (intro exI[of _ "fst ?S"] exI[of _ st5] exI[of _ k]) simp
qed

lemma start_loop_suite_failed:
  fixes ts :: "('w, 'c) TestSuite" and st :: "'w run_state"
  assumes "\<forall>cr\<in>set crs. 0 \<le> retry (runtime_data cr)"
  shows "\<exists>crs' n ss L.
           n \<le> length crs \<and> (crs \<noteq> [] \<longrightarrow> 0 < n)
         \<and> length crs' = length crs \<and> length ss = Suc n \<and> ss ! 0 = st
         \<and> start_loop ts kw False msg crs st = Some (Inr (crs', ss ! n))
         \<and> (\<forall>i<n. start_case ts kw False msg (crs ! i) (ss ! i) = Some (Inr (crs' ! i, ss ! Suc i))
                 \<and> status (crs' ! i) = SKIPPED
                 \<and> message (crs' ! i) =
                     (if msg = [] then message (crs ! i)
                      else join_lines ((if message (crs ! i) \<noteq> [] then [message (crs ! i)] else []) @ [msg]))
                 \<and> (Suc i < n \<longrightarrow> \<not> should_stop (ss ! Suc i)))
         \<and> (n < length crs \<longrightarrow> should_stop (ss ! n))
         \<and> drop n crs' = drop n crs
         \<and> call_log (ss ! n) = call_log st @ L
         \<and> (\<forall>h\<in>set L. \<exists>nm. h = After_case nm)"
  using assms
proof (induction crs arbitrary: st)
  case Nil
  show ?case
    by (rule exI[of _ "[]"], rule exI[of _ 0], rule exI[of _ "[st]"], rule exI[of _ "[]"]) simp
next
  case (Cons cr rest)
  let ?M = "\<lambda>c. (if msg = [] then message c
                 else join_lines ((if message c \<noteq> [] then [message c] else []) @ [msg]))"
  let ?A = "replicate (Suc k) (After_case (name (metadata (runtime_data cr))))"
  have r: "0 \<le> retry (runtime_data cr)" using Cons.prems by simp
  from start_case_suite_failed[OF r, of ts kw msg st] obtain cr' st1 k where
    c: "start_case ts kw False msg cr st = Some (Inr (cr', st1))"
       "status cr' = SKIPPED" "message cr' = ?M cr"
       "call_log st1 = call_log st @ replicate (Suc k) (After_case (name (metadata (runtime_data cr))))"
    by blast
  show ?case
  proof (cases "should_stop st1")
    case True
    have run: "start_loop ts kw False msg (cr # rest) st = Some (Inr (cr' # rest, st1))"
      using c(1) True by simp
    show ?thesis
      apply (rule exI[of _ "cr' # rest"], rule exI[of _ 1], rule exI[of _ "[st, st1]"],
             rule exI[of _ "replicate (Suc k) (After_case (name (metadata (runtime_data cr))))"])
      using run c True by simp
  next
    case False
    have "\<forall>cr\<in>set rest. 0 \<le> retry (runtime_data cr)" using Cons.prems by simp
    from Cons.IH[OF this, of st1] obtain rest' n ss L where
      ih: "n \<le> length rest" "length rest' = length rest" "length ss = Suc n" "ss ! 0 = st1"
          "start_loop ts kw False msg rest st1 = Some (Inr (rest', ss ! n))"
          "\<forall>i<n. start_case ts kw False msg (rest ! i) (ss ! i) = Some (Inr (rest' ! i, ss ! Suc i))
                 \<and> status (rest' ! i) = SKIPPED \<and> message (rest' ! i) = ?M (rest ! i)
                 \<and> (Suc i < n \<longrightarrow> \<not> should_stop (ss ! Suc i))"
          "n < length rest \<longrightarrow> should_stop (ss ! n)"
          "drop n rest' = drop n rest"
          "call_log (ss ! n) = call_log st1 @ L"
          "\<forall>h\<in>set L. \<exists>nm. h = After_case nm"
      by blast
    have run: "start_loop ts kw False msg (cr # rest) st = Some (Inr (cr' # rest', (st # ss) ! Suc n))"
      using c(1) False ih(5) by simp
    have idx: "\<forall>i<Suc n.
          start_case ts kw False msg ((cr # rest) ! i) ((st # ss) ! i)
            = Some (Inr ((cr' # rest') ! i, (st # ss) ! Suc i))
        \<and> status ((cr' # rest') ! i) = SKIPPED
        \<and> message ((cr' # rest') ! i) = ?M ((cr # rest) ! i)
        \<and> (Suc i < Suc n \<longrightarrow> \<not> should_stop ((st # ss) ! Suc i))"
    proof (intro allI impI)
      fix i assume i: "i < Suc n"
      show "start_case ts kw False msg ((cr # rest) ! i) ((st # ss) ! i)
            = Some (Inr ((cr' # rest') ! i, (st # ss) ! Suc i))
        \<and> status ((cr' # rest') ! i) = SKIPPED
        \<and> message ((cr' # rest') ! i) = ?M ((cr # rest) ! i)
        \<and> (Suc i < Suc n \<longrightarrow> \<not> should_stop ((st # ss) ! Suc i))"
      proof (cases i)
        case 0
        then show ?thesis using c(1,2,3) ih(4) False by simp
      next
        case (Suc m)
        then have "m < n" using i by simp
        then show ?thesis using ih(6) Suc by simp
      qed
    qed
    have lg: "call_log ((st # ss) ! Suc n) = call_log st @
        (replicate (Suc k) (After_case (name (metadata (runtime_data cr)))) @ L)"
      using c(4) ih(9) by simp
    have lg2: "\<forall>h\<in>set (replicate (Suc k) (After_case (name (metadata (runtime_data cr)))) @ L).
                \<exists>nm. h = After_case nm"
      using ih(10) by auto
    have stp: "Suc n < length (cr # rest) \<longrightarrow> should_stop ((st # ss) ! Suc n)"
      using ih(7) by simp
    show ?thesis
      apply (rule exI[of _ "cr' # rest'"], rule exI[of _ "Suc n"], rule exI[of _ "st # ss"],
             rule exI[of _ "replicate (Suc k) (After_case (name (metadata (runtime_data cr)))) @ L"])
      using run idx lg lg2 stp ih(1,2,3,8) by simp
  qed
qed

lemma suite_method_effect:
  "call_log (snd (TestSuite_suite_method h nm f st)) = call_log st @ [h]"
  "notified (snd (TestSuite_suite_method h nm f st)) = notified st"
  "should_stop st \<Longrightarrow> should_stop (snd (TestSuite_suite_method h nm f st))"
  "fst (TestSuite_suite_method h nm f st) =
     (case raised (f (world st)) of None \<Rightarrow> (True, [])
      | Some e \<Rightarrow> (False, nm @ '': '' @ exc_str e))"
  by (simp_all add: TestSuite_suite_method_def invoke_def Let_def split: option.splits)

lemma start_unfold:
  "TestSuite_start ts env crs st =
    (case start_loop ts \<lparr>kw_environment = env\<lparr>is_new := False\<rparr>, kw_case_name = None\<rparr>
            (fst (fst (TestSuite_suite_method Before_suite (before_suite_name ts)
               (before_suite ts \<lparr>kw_environment = env\<lparr>is_new := False\<rparr>, kw_case_name = None\<rparr>) st)))
            (snd (fst (TestSuite_suite_method Before_suite (before_suite_name ts)
               (before_suite ts \<lparr>kw_environment = env\<lparr>is_new := False\<rparr>, kw_case_name = None\<rparr>) st)))
            crs
            (snd (TestSuite_suite_method Before_suite (before_suite_name ts)
               (before_suite ts \<lparr>kw_environment = env\<lparr>is_new := False\<rparr>, kw_case_name = None\<rparr>) st)) of
       None \<Rightarrow> None
     | Some (Inl err) \<Rightarrow> Some (Inl err)
     | Some (Inr (crs', st2)) \<Rightarrow>
         Some (Inr (env\<lparr>is_new := False\<rparr>, crs',
           snd (TestSuite_suite_method After_suite (after_suite_name ts)
                  (after_suite ts \<lparr>kw_environment = env\<lparr>is_new := False\<rparr>, kw_case_name = None\<rparr>) st2))))"
  by (simp add: TestSuite_start_def Let_def split_def split: option.splits sum.splits)

lemma start_loop_append:
  assumes "start_loop ts kw c msg pre st0 = Some (Inr (pre', st1))" and "\<not> should_stop st1"
  shows "start_loop ts kw c msg (pre @ rest) st0 =
          (case start_loop ts kw c msg rest st1 of
             None \<Rightarrow> None
           | Some (Inl err) \<Rightarrow> Some (Inl err)
           | Some (Inr (rest', st2)) \<Rightarrow> Some (Inr (pre' @ rest', st2)))"
  using assms
proof (induction pre arbitrary: st0 pre')
  case Nil
  then show ?case by (simp split: option.splits sum.splits)
next
  case (Cons cr pre)
  from Cons.prems(1) obtain cr1 s1 where
    c: "start_case ts kw c msg cr st0 = Some (Inr (cr1, s1))"
    by (auto split: option.splits sum.splits)
  have ns: "\<not> should_stop s1"
    using Cons.prems c by (auto split: option.splits sum.splits if_splits)
  from Cons.prems(1) c ns obtain pre1 where
    l: "start_loop ts kw c msg pre s1 = Some (Inr (pre1, st1))" and p: "pre' = cr1 # pre1"
    by (auto split: option.splits sum.splits)
  show ?case
    using c ns Cons.IH[OF l Cons.prems(2)] p
    by (simp split: option.splits sum.splits)
qed

lemma os_type_loop_passing:
  assumes "result cr" and "\<forall>n\<in>set pre. result (space_check os (os_mro n))"
  shows "os_type_loop os cr (pre @ rest) =
           os_type_loop os
             (foldl (\<lambda>acc n. merge acc (space_check os (os_mro n)) ''os_type'') cr pre) rest
         \<and> result (foldl (\<lambda>acc n. merge acc (space_check os (os_mro n)) ''os_type'') cr pre)"
  using assms
proof (induction pre arbitrary: cr)
  case Nil
  then show ?case by simp
next
  case (Cons n pre)
  have ok: "result (merge cr (space_check os (os_mro n)) ''os_type'')"
    using Cons.prems by (simp add: merge_def)
  have rest: "\<forall>n\<in>set pre. result (space_check os (os_mro n))"
    using Cons.prems by simp
  show ?case
    using Cons.IH[OF ok rest] ok by (simp add: Let_def)
qed

lemma os_type_loop_failing:
  assumes "\<not> result (space_check os (os_mro node))"
  shows "os_type_loop os cr (node # post) = merge cr (space_check os (os_mro node)) ''os_type''
         \<and> \<not> result (merge cr (space_check os (os_mro node)) ''os_type'')"
  using assms by (simp add: Let_def merge_def)

text \<open>
  The definitions that evaluate a run of the engine on the samples.
\<close>

lemmas engine_defs =
  TestSuite_start_def TestSuite_suite_method_def start_case_def TestSuite_before_case_def
  TestSuite_after_case_def TestSuite_run_case_def invoke_def set_status_def
  send_result_message_def handle_exception_def TestResult_init_def dict_update_def
  retry_call_zero retry_call_step Let_def split_def

lemmas sample_defs =
  HelloWorld_def hello_result_def bye_result_def hello_metadata_def bye_metadata_def
  any_environment_def accepts_all_def TestCaseRuntimeData_init_def idle_def local_environment_def
  returns_def raises_def generic_error_def not_run_signal_def flaky_hello_def
  stopping_bye_def stopping_setup_def

section \<open>The claims\<close>

subsection \<open>C1: classification of exceptions\<close>

text \<open>
  Claim C1. \<^verbatim>\<open>handle_exception\<close> fixes the status by the first test that holds:
  a skip signal gives \<open>SKIPPED\<close>, then a keep-not-run signal gives \<open>NOTRUN\<close>, then
  a pass-with-warning signal gives \<open>PASSED\<close>, and any other exception gives
  \<open>ATTEMPTED\<close> when the record ignores failures and \<open>FAILED\<close> otherwise. The line
  added to the record's message is the phase (followed by a blank when there is one),
  the word of the class (\<^verbatim>\<open>skipped: \<close>, \<^verbatim>\<open>notrun: \<close>, \<^verbatim>\<open>warning: \<close>,
  \<^verbatim>\<open>failed: \<close>, nothing for an ignored failure) and the text of the exception; it
  follows the message the record had.
\<close>

theorem handle_exception_classifies:
  "status (fst (handle_exception e ph self st)) =
     (if is_SkippedException e then SKIPPED
      else if is_NotRunException e then NOTRUN
      else if is_PassedException e then PASSED
      else if ignore_failure (runtime_data self) then ATTEMPTED
      else FAILED)
   \<and> message (fst (handle_exception e ph self st)) =
     (let phase = (if ph \<noteq> [] then ph @ '' '' else []);
          line = phase @
            (if is_SkippedException e then ''skipped: '' @ exc_str e
             else if is_NotRunException e then ''notrun: '' @ exc_str e
             else if is_PassedException e then ''warning: '' @ exc_str e
             else if ignore_failure (runtime_data self) then exc_str e
             else ''failed: '' @ exc_str e)
      in if line = [] then message self
         else if message self = [] then line
         else message self @ [CHR 0x0A] @ line)"
  by (simp add: handle_exception_def Let_def set_status_record_fields set_status_message)

text \<open>
  A generic error on a record that ignores failures: the status is \<open>ATTEMPTED\<close>.
\<close>

theorem handle_exception_classifies_witness:
  "status (fst (handle_exception (generic_error ''boom'') [] lenient_hello idle)) = ATTEMPTED
   \<and> message (fst (handle_exception (generic_error ''boom'') [] lenient_hello idle)) = ''boom''"
  using handle_exception_classifies[of "generic_error ''boom''" "[]" lenient_hello idle]
  by (simp add: sample_defs lenient_hello_def TestResult_init_def send_result_message_def)

subsection \<open>C2: bounded retry of the case body\<close>

text \<open>
  Claim C2. For a record with \<open>retry = r \<ge> 0\<close> whose case is a method of the suite,
  \<^verbatim>\<open>__run_case\<close> returns after \<open>k + 1 \<le> r + 1\<close> invocations of the body. Every
  invocation before the last raised. When the last invocation returned, nothing more is
  invoked and the status is set to \<open>PASSED\<close>; when it raised, it was invocation
  \<open>r + 1\<close> and its exception is the one classified.
\<close>

theorem run_case_bounded_retry:
  fixes ts :: "('w, 'c) TestSuite" and st :: "'w run_state"
  assumes "0 \<le> retry (runtime_data cr)"
      and "test_methods ts (name (metadata (runtime_data cr))) = Some body"
  shows "let h = Test_method (name (metadata (runtime_data cr)));
             attempt = (\<lambda>i. invoke h (body kw) (((snd \<circ> invoke h (body kw)) ^^ i) st))
         in \<exists>k cr' st'.
              k \<le> nat (retry (runtime_data cr))
            \<and> TestSuite_run_case ts cr kw st = Some (Inr (cr', st'))
            \<and> call_log st' = call_log st @ replicate (Suc k) h
            \<and> (\<forall>i<k. fst (attempt i) \<noteq> None)
            \<and> (case fst (attempt k) of
                  None \<Rightarrow> status cr' = PASSED
                    \<and> (cr', st') = set_status PASSED (Str []) cr (snd (attempt k))
                | Some e \<Rightarrow> k = nat (retry (runtime_data cr))
                    \<and> (cr', st') = handle_exception e [] cr (snd (attempt k)))"
proof -
  let ?h = "Test_method (name (metadata (runtime_data cr)))"
  let ?f = "invoke ?h (body kw)"
  from run_case_shape[OF assms, of kw st] obtain k where
    k: "k \<le> nat (retry (runtime_data cr))"
       "TestSuite_run_case ts cr kw st =
         Some (Inr (case fst (?f (((snd \<circ> ?f) ^^ k) st)) of
                   None \<Rightarrow> set_status PASSED (Str []) cr (snd (?f (((snd \<circ> ?f) ^^ k) st)))
                 | Some e \<Rightarrow> handle_exception e [] cr (snd (?f (((snd \<circ> ?f) ^^ k) st)))))"
       "\<forall>i<k. fst (?f (((snd \<circ> ?f) ^^ i) st)) \<noteq> None"
       "fst (?f (((snd \<circ> ?f) ^^ k) st)) \<noteq> None \<longrightarrow> k = nat (retry (runtime_data cr))"
    by blast
  let ?s = "snd (?f (((snd \<circ> ?f) ^^ k) st))"
  let ?r = "case fst (?f (((snd \<circ> ?f) ^^ k) st)) of
                   None \<Rightarrow> set_status PASSED (Str []) cr ?s
                 | Some e \<Rightarrow> handle_exception e [] cr ?s"
  have log: "call_log ?s = call_log st @ replicate (Suc k) ?h"
    by (simp add: invoke_state_fields invoke_iter_fields replicate_append_same)
  have lg: "call_log (snd ?r) = call_log st @ replicate (Suc k) ?h"
    using log by (simp add: set_status_state_fields handle_exception_state_fields split: option.splits)
  have run: "TestSuite_run_case ts cr kw st = Some (Inr (fst ?r, snd ?r))"
    using k(2) by simp
  have cls: "case fst (?f (((snd \<circ> ?f) ^^ k) st)) of
               None \<Rightarrow> status (fst ?r) = PASSED \<and> (fst ?r, snd ?r) = set_status PASSED (Str []) cr ?s
             | Some e \<Rightarrow> k = nat (retry (runtime_data cr)) \<and> (fst ?r, snd ?r) = handle_exception e [] cr ?s"
    using k(4) by (simp add: set_status_record_fields split: option.splits)
  show ?thesis
    unfolding Let_def
    by (rule exI[of _ k], rule exI[of _ "fst ?r"], rule exI[of _ "snd ?r"])
       (intro conjI k(1) run lg k(3) cls)
qed

text \<open>
  A body that fails twice and then returns, with \<open>retry = 2\<close>: the status is
  \<open>PASSED\<close> after exactly three invocations.
\<close>

theorem run_case_bounded_retry_witness:
  "0 \<le> retry (runtime_data retrying_hello)
   \<and> test_methods flaky_suite (name (metadata (runtime_data retrying_hello))) = Some flaky_hello
   \<and> (let h = Test_method (name (metadata (runtime_data retrying_hello)));
           attempt = (\<lambda>i. invoke h (flaky_hello run_kwargs)
                            (((snd \<circ> invoke h (flaky_hello run_kwargs)) ^^ i) idle))
       in \<exists>k cr' st'.
              k \<le> nat (retry (runtime_data retrying_hello))
            \<and> TestSuite_run_case flaky_suite retrying_hello run_kwargs idle = Some (Inr (cr', st'))
            \<and> call_log st' = call_log idle @ replicate (Suc k) h
            \<and> (\<forall>i<k. fst (attempt i) \<noteq> None)
            \<and> (case fst (attempt k) of
                  None \<Rightarrow> status cr' = PASSED
                    \<and> (cr', st') = set_status PASSED (Str []) retrying_hello (snd (attempt k))
                | Some e \<Rightarrow> k = nat (retry (runtime_data retrying_hello))
                    \<and> (cr', st') = handle_exception e [] retrying_hello (snd (attempt k))))
   \<and> (case TestSuite_run_case flaky_suite retrying_hello run_kwargs idle of
        Some (Inr (cr', st')) \<Rightarrow> (status cr', call_log st')
      | _ \<Rightarrow> (NOTRUN, []))
       = (PASSED, [Test_method ''hello'', Test_method ''hello'', Test_method ''hello''])"
proof -
  have h1: "0 \<le> retry (runtime_data retrying_hello)"
    by (simp add: retrying_hello_def)
  have h2: "test_methods flaky_suite (name (metadata (runtime_data retrying_hello))) = Some flaky_hello"
    by (simp add: flaky_suite_def retrying_hello_def sample_defs TestResult_init_def
          send_result_message_def)
  note c = run_case_bounded_retry[OF h1 h2, of run_kwargs idle]
  have e: "(case TestSuite_run_case flaky_suite retrying_hello run_kwargs idle of
        Some (Inr (cr', st')) \<Rightarrow> (status cr', call_log st')
      | _ \<Rightarrow> (NOTRUN, []))
       = (PASSED, [Test_method ''hello'', Test_method ''hello'', Test_method ''hello''])"
    by (simp add: engine_defs sample_defs flaky_suite_def retrying_hello_def run_kwargs_def)
  show ?thesis by (intro conjI h1 h2 c e)
qed

subsection \<open>C3: a failing suite setup\<close>

text \<open>
  Claim C3, as stated, fails: the loop over the records is left as soon as
  \<^verbatim>\<open>_should_stop\<close> is found set, also when the suite setup failed. With a setup
  that calls \<^verbatim>\<open>stop()\<close> and then raises, the first record is skipped and the
  second keeps the status \<open>NOTRUN\<close>.
\<close>

theorem before_suite_failure_counterexample:
  "raised (stopping_setup \<lparr>kw_environment = local_environment\<lparr>is_new := False\<rparr>, kw_case_name = None\<rparr>
            (world idle)) = Some (generic_error ''no network'')
   \<and> (case TestSuite_start (HelloWorld\<lparr>before_suite := stopping_setup\<rparr>) local_environment
             [hello_result, bye_result] idle of
         Some (Inr (env, crs, st)) \<Rightarrow> map status crs
       | _ \<Rightarrow> []) = [SKIPPED, NOTRUN]"
  by (simp add: engine_defs sample_defs)

text \<open>
  Claim C3, amended. Let \<^verbatim>\<open>before_suite\<close> raise an exception of class
  \<^verbatim>\<open>Exception\<close>, and let no record have a negative retry count. Then
  \<^verbatim>\<open>start\<close> returns without raising. The loop reaches the first \<open>n\<close>
  records, one round each, through the states \<open>ss ! 0\<close> to \<open>ss ! n\<close>: it goes on
  while the stop flag is clear after a round and ends after the first round that leaves
  the flag set, or after the last record; when there are records it reaches at least the
  first. Every record reached is \<open>SKIPPED\<close> and carries, after its earlier message,
  the line made of the \<^verbatim>\<open>__name__\<close> of the \<^verbatim>\<open>before_suite\<close> method, a colon
  and the text of the exception. The records not reached are as they were. The hooks
  invoked are \<^verbatim>\<open>before_suite\<close>, then only \<^verbatim>\<open>after_case\<close>, then
  \<^verbatim>\<open>after_suite\<close> once, on the state the loop left: no \<^verbatim>\<open>before_case\<close>
  and no case body.
\<close>

theorem before_suite_failure_skips_cases:
  fixes ts :: "('w, 'c) TestSuite" and st :: "'w run_state"
  assumes kw: "kw = \<lparr>kw_environment = env\<lparr>is_new := False\<rparr>, kw_case_name = None\<rparr>"
      and raise: "raised (before_suite ts kw (world st)) = Some e"
      and msg: "msg = before_suite_name ts @ '': '' @ exc_str e"
      and retry: "\<forall>cr\<in>set crs. 0 \<le> retry (runtime_data cr)"
  shows "\<exists>crs' st' n ss L.
           TestSuite_start ts env crs st = Some (Inr (env\<lparr>is_new := False\<rparr>, crs', st'))
         \<and> n \<le> length crs \<and> (crs \<noteq> [] \<longrightarrow> 0 < n)
         \<and> length crs' = length crs \<and> length ss = Suc n
         \<and> ss ! 0 = snd (TestSuite_suite_method Before_suite (before_suite_name ts)
                           (before_suite ts kw) st)
         \<and> (\<forall>i<n. start_case ts kw False msg (crs ! i) (ss ! i) = Some (Inr (crs' ! i, ss ! Suc i))
                 \<and> status (crs' ! i) = SKIPPED
                 \<and> message (crs' ! i) =
                     join_lines ((if message (crs ! i) \<noteq> [] then [message (crs ! i)] else []) @ [msg])
                 \<and> (Suc i < n \<longrightarrow> \<not> should_stop (ss ! Suc i)))
         \<and> (n < length crs \<longrightarrow> should_stop (ss ! n))
         \<and> drop n crs' = drop n crs
         \<and> st' = snd (TestSuite_suite_method After_suite (after_suite_name ts)
                        (after_suite ts kw) (ss ! n))
         \<and> call_log st' = call_log st @ [Before_suite] @ L @ [After_suite]
         \<and> (\<forall>h\<in>set L. \<exists>nm. h = After_case nm)"
proof -
  let ?B = "TestSuite_suite_method Before_suite (before_suite_name ts) (before_suite ts kw) st"
  have b: "fst ?B = (False, msg)" "call_log (snd ?B) = call_log st @ [Before_suite]"
    using raise msg by (simp_all add: suite_method_effect)
  have ne: "msg \<noteq> []" using msg by simp
  from start_loop_suite_failed[OF retry, where ts = ts and kw = kw and msg = msg and st = "snd ?B"]
  obtain crs' n ss L where
    l: "n \<le> length crs" "crs \<noteq> [] \<longrightarrow> 0 < n" "length crs' = length crs" "length ss = Suc n"
       "ss ! 0 = snd ?B"
       "start_loop ts kw False msg crs (snd ?B) = Some (Inr (crs', ss ! n))"
       "\<forall>i<n. start_case ts kw False msg (crs ! i) (ss ! i) = Some (Inr (crs' ! i, ss ! Suc i))
                 \<and> status (crs' ! i) = SKIPPED
                 \<and> message (crs' ! i) =
                     (if msg = [] then message (crs ! i)
                      else join_lines ((if message (crs ! i) \<noteq> [] then [message (crs ! i)] else []) @ [msg]))
                 \<and> (Suc i < n \<longrightarrow> \<not> should_stop (ss ! Suc i))"
       "n < length crs \<longrightarrow> should_stop (ss ! n)"
       "drop n crs' = drop n crs"
       "call_log (ss ! n) = call_log (snd ?B) @ L"
       "\<forall>h\<in>set L. \<exists>nm. h = After_case nm"
    by blast
  let ?A = "TestSuite_suite_method After_suite (after_suite_name ts) (after_suite ts kw) (ss ! n)"
  have run: "TestSuite_start ts env crs st = Some (Inr (env\<lparr>is_new := False\<rparr>, crs', snd ?A))"
    using l(6) b(1) kw by (simp add: start_unfold)
  have lg: "call_log (snd ?A) = call_log st @ [Before_suite] @ L @ [After_suite]"
    using l(10) b(2) by (simp add: suite_method_effect)
  have idx: "\<forall>i<n. start_case ts kw False msg (crs ! i) (ss ! i) = Some (Inr (crs' ! i, ss ! Suc i))
                 \<and> status (crs' ! i) = SKIPPED
                 \<and> message (crs' ! i) =
                     join_lines ((if message (crs ! i) \<noteq> [] then [message (crs ! i)] else []) @ [msg])
                 \<and> (Suc i < n \<longrightarrow> \<not> should_stop (ss ! Suc i))"
    using l(7) ne by simp
  show ?thesis
    by (rule exI[of _ crs'], rule exI[of _ "snd ?A"], rule exI[of _ n], rule exI[of _ ss],
        rule exI[of _ L])
       (intro conjI run l(1,2,3,4,5,8,9,11) idx lg refl)
qed

text \<open>
  A setup that raises without calling \<^verbatim>\<open>stop()\<close>: both records are skipped.
\<close>

theorem before_suite_failure_skips_cases_witness:
  "run_kwargs = \<lparr>kw_environment = local_environment\<lparr>is_new := False\<rparr>, kw_case_name = None\<rparr>
   \<and> raised (before_suite failing_suite run_kwargs (world idle)) = Some (generic_error ''no network'')
   \<and> ''before_suite: no network''
       = before_suite_name failing_suite @ '': '' @ exc_str (generic_error ''no network'')
   \<and> 0 \<le> retry (runtime_data hello_result) \<and> 0 \<le> retry (runtime_data bye_result)
   \<and> (\<exists>crs' st' n ss L.
           TestSuite_start failing_suite local_environment [hello_result, bye_result] idle
             = Some (Inr (local_environment\<lparr>is_new := False\<rparr>, crs', st'))
         \<and> n \<le> length [hello_result, bye_result] \<and> ([hello_result, bye_result] \<noteq> [] \<longrightarrow> 0 < n)
         \<and> length crs' = length [hello_result, bye_result] \<and> length ss = Suc n
         \<and> ss ! 0 = snd (TestSuite_suite_method Before_suite (before_suite_name failing_suite)
                           (before_suite failing_suite run_kwargs) idle)
         \<and> (\<forall>i<n. start_case failing_suite run_kwargs False ''before_suite: no network''
                      ([hello_result, bye_result] ! i) (ss ! i) = Some (Inr (crs' ! i, ss ! Suc i))
                 \<and> status (crs' ! i) = SKIPPED
                 \<and> message (crs' ! i) =
                     join_lines ((if message ([hello_result, bye_result] ! i) \<noteq> []
                                  then [message ([hello_result, bye_result] ! i)] else [])
                                 @ [''before_suite: no network''])
                 \<and> (Suc i < n \<longrightarrow> \<not> should_stop (ss ! Suc i)))
         \<and> (n < length [hello_result, bye_result] \<longrightarrow> should_stop (ss ! n))
         \<and> drop n crs' = drop n [hello_result, bye_result]
         \<and> st' = snd (TestSuite_suite_method After_suite (after_suite_name failing_suite)
                        (after_suite failing_suite run_kwargs) (ss ! n))
         \<and> call_log st' = call_log idle @ [Before_suite] @ L @ [After_suite]
         \<and> (\<forall>h\<in>set L. \<exists>nm. h = After_case nm))
   \<and> (case TestSuite_start failing_suite local_environment [hello_result, bye_result] idle of
         Some (Inr (env, crs, st)) \<Rightarrow> (map status crs, map message crs, call_log st)
       | _ \<Rightarrow> ([], [], []))
       = ([SKIPPED, SKIPPED],
          [''before_suite: no network'', ''before_suite: no network''],
          [Before_suite, After_case ''hello'', After_case ''bye'', After_suite])"
proof -
  have h0: "run_kwargs = \<lparr>kw_environment = local_environment\<lparr>is_new := False\<rparr>, kw_case_name = None\<rparr>"
    by (simp add: run_kwargs_def)
  have h1: "raised (before_suite failing_suite run_kwargs (world idle))
              = Some (generic_error ''no network'')"
    by (simp add: failing_suite_def failing_setup_def raises_def)
  have h2: "''before_suite: no network''
       = before_suite_name failing_suite @ '': '' @ exc_str (generic_error ''no network'')"
    by (simp add: failing_suite_def HelloWorld_def generic_error_def)
  have h3: "0 \<le> retry (runtime_data hello_result)" "0 \<le> retry (runtime_data bye_result)"
    by (simp_all add: sample_defs TestResult_init_def send_result_message_def)
  then have h4: "\<forall>cr\<in>set [hello_result, bye_result]. 0 \<le> retry (runtime_data cr)"
    by simp
  note c = before_suite_failure_skips_cases[OF h0 h1 h2 h4]
  have e: "(case TestSuite_start failing_suite local_environment [hello_result, bye_result] idle of
         Some (Inr (env, crs, st)) \<Rightarrow> (map status crs, map message crs, call_log st)
       | _ \<Rightarrow> ([], [], []))
       = ([SKIPPED, SKIPPED],
          [''before_suite: no network'', ''before_suite: no network''],
          [Before_suite, After_case ''hello'', After_case ''bye'', After_suite])"
    by (simp add: engine_defs sample_defs failing_suite_def failing_setup_def)
  show ?thesis by (intro conjI h0 h1 h2 h3 c e)
qed

subsection \<open>C4: messages sent by set_status\<close>

text \<open>
  Claim C4, as stated, fails: a call of \<^verbatim>\<open>set_status\<close> with the status the
  record already has sends nothing, although it may extend the message of the record.
\<close>

theorem set_status_same_status_counterexample:
  "status hello_result = NOTRUN
   \<and> notified (snd (set_status NOTRUN (Str ''still waiting'') hello_result idle)) = notified idle
   \<and> message (fst (set_status NOTRUN (Str ''still waiting'') hello_result idle)) = ''still waiting''"
  by (simp add: engine_defs sample_defs)

text \<open>
  Claim C4, amended. \<^verbatim>\<open>set_status\<close> sends a message exactly when the new
  status differs from the current one. The message carries the identifier, the status,
  the elapsed time and the information of the record as the call leaves it, and the
  first 2048 characters of its message.
\<close>

theorem set_status_notifies_on_change:
  "notified (snd (set_status ns m self st)) =
     (if status self = ns then notified st
      else notified st @
        [\<lparr>msg_id = ident (fst (set_status ns m self st)),
          msg_type = ''TestResult'',
          msg_name = full_name (metadata (runtime_data (fst (set_status ns m self st)))),
          msg_status = status (fst (set_status ns m self st)),
          msg_elapsed = elapsed (fst (set_status ns m self st)),
          msg_message = take 2048 (message (fst (set_status ns m self st))),
          msg_information = dict_update [] (information (fst (set_status ns m self st)))\<rparr>])
   \<and> ident (fst (set_status ns m self st)) = ident self
   \<and> status (fst (set_status ns m self st)) = ns
   \<and> elapsed (fst (set_status ns m self st)) =
       (if status self = ns then elapsed self
        else if ns = RUNNING then 0
        else case timer self of Some t0 \<Rightarrow> clock st - t0 | None \<Rightarrow> elapsed self)
   \<and> information (fst (set_status ns m self st)) =
       (if status self = ns then information self
        else case environment self of
               Some env \<Rightarrow> dict_update (information self) (get_information env)
             | None \<Rightarrow> information self)"
  by (simp add: set_status_def Let_def send_result_message_def split: option.splits)

subsection \<open>C5: the cleanup of a case\<close>

text \<open>
  Claim C5. One round of the loop of \<^verbatim>\<open>start\<close>, for a record with
  \<open>retry \<ge> 0\<close> whose case is a method of the suite, decides a record \<open>cr4\<close> in a
  state \<open>st4\<close> before \<^verbatim>\<open>after_case\<close> runs, whether the suite setup failed,
  \<^verbatim>\<open>before_case\<close> failed or the body ran. Whatever the hook \<^verbatim>\<open>after_case\<close>
  does, raising on every attempt included, the round returns this very record, the hook
  is invoked between one and \<open>retry + 1\<close> times, and no message is sent.
\<close>

theorem after_case_never_alters_result:
  fixes ts :: "('w, 'c) TestSuite"
  assumes "0 \<le> retry (runtime_data cr)"
      and "test_methods ts (name (metadata (runtime_data cr))) = Some body"
  shows "\<exists>cr4. \<exists>st4 :: 'w run_state. \<forall>h. \<exists>st5 k.
           start_case (ts\<lparr>after_case := h\<rparr>) kw c msg cr st = Some (Inr (cr4, st5))
         \<and> k \<le> nat (retry (runtime_data cr))
         \<and> notified st5 = notified st4
         \<and> call_log st5 =
             call_log st4 @ replicate (Suc k) (After_case (name (metadata (runtime_data cr))))"
proof -
  let ?ckw = "kw\<lparr>kw_case_name := Some (name (metadata (runtime_data cr)))\<rparr>"
  from start_case_prefix[OF assms, of kw c msg st] obtain cr4 st4 where
    p: "\<And>h. start_case (ts\<lparr>after_case := h\<rparr>) kw c msg cr st =
            (case TestSuite_after_case (ts\<lparr>after_case := h\<rparr>) cr4 ?ckw st4 of
               None \<Rightarrow> None | Some st5 \<Rightarrow> Some (Inr (cr4, st5)))"
    and rd: "runtime_data cr4 = runtime_data cr"
    by blast
  have r4: "0 \<le> retry (runtime_data cr4)" using assms(1) rd by simp
  have step: "\<exists>st5 k. start_case (ts\<lparr>after_case := h\<rparr>) kw c msg cr st = Some (Inr (cr4, st5))
         \<and> k \<le> nat (retry (runtime_data cr))
         \<and> notified st5 = notified st4
         \<and> call_log st5 =
             call_log st4 @ replicate (Suc k) (After_case (name (metadata (runtime_data cr))))" for h
  proof -
    from after_case_effect[OF r4, of "ts\<lparr>after_case := h\<rparr>" ?ckw st4] obtain st5 k where
      a: "TestSuite_after_case (ts\<lparr>after_case := h\<rparr>) cr4 ?ckw st4 = Some st5"
         "k \<le> nat (retry (runtime_data cr4))"
         "notified st5 = notified st4"
         "call_log st5 = call_log st4 @ replicate (Suc k) (After_case (name (metadata (runtime_data cr4))))"
      by blast
    have "start_case (ts\<lparr>after_case := h\<rparr>) kw c msg cr st = Some (Inr (cr4, st5))"
      using p[of h] a(1) by simp
    then show ?thesis using a(2,3,4) rd by (intro exI[of _ st5] exI[of _ k]) simp
  qed
  show ?thesis
    by (rule exI[of _ cr4], rule exI[of _ st4], rule allI, rule step)
qed

text \<open>
  A cleanup that always raises after a case that passed: the status stays
  \<open>PASSED\<close> and the message stays empty.
\<close>

theorem after_case_never_alters_result_witness:
  "0 \<le> retry (runtime_data hello_result)
   \<and> test_methods HelloWorld (name (metadata (runtime_data hello_result))) = Some (\<lambda>kw. returns)
   \<and> (\<exists>cr4. \<exists>st4 :: nat run_state. \<forall>h. \<exists>st5 k.
          start_case (HelloWorld\<lparr>after_case := h\<rparr>) run_kwargs True [] hello_result idle
            = Some (Inr (cr4, st5))
        \<and> k \<le> nat (retry (runtime_data hello_result))
        \<and> notified st5 = notified st4
        \<and> call_log st5 =
            call_log st4 @ replicate (Suc k) (After_case (name (metadata (runtime_data hello_result)))))
   \<and> (case start_case (HelloWorld\<lparr>after_case := failing_cleanup\<rparr>) run_kwargs True []
             hello_result idle of
         Some (Inr (cr, st)) \<Rightarrow> (status cr, message cr, call_log st)
       | _ \<Rightarrow> (NOTRUN, [], []))
       = (PASSED, [], [Before_case ''hello'', Test_method ''hello'', After_case ''hello''])"
proof -
  have h1: "0 \<le> retry (runtime_data hello_result)"
    by (simp add: sample_defs TestResult_init_def send_result_message_def)
  have h2: "test_methods HelloWorld (name (metadata (runtime_data hello_result))) = Some (\<lambda>kw. returns)"
    by (simp add: sample_defs TestResult_init_def send_result_message_def)
  note c = after_case_never_alters_result[OF h1 h2, of run_kwargs True "[]" idle]
  have e: "(case start_case (HelloWorld\<lparr>after_case := failing_cleanup\<rparr>) run_kwargs True []
             hello_result idle of
         Some (Inr (cr, st)) \<Rightarrow> (status cr, message cr, call_log st)
       | _ \<Rightarrow> (NOTRUN, [], []))
       = (PASSED, [], [Before_case ''hello'', Test_method ''hello'', After_case ''hello''])"
    by (simp add: engine_defs sample_defs failing_cleanup_def run_kwargs_def)
  show ?thesis by (intro conjI h1 h2 c e)
qed

subsection \<open>C6: the sequence of statuses of a record\<close>

text \<open>
  Claim C6, as stated, fails: a body that raises the keep-not-run signal takes the
  record from \<open>RUNNING\<close> back to \<open>NOTRUN\<close>.
\<close>

theorem running_back_to_notrun_counterexample:
  "(case start_case
           (HelloWorld\<lparr>test_methods :=
              (test_methods HelloWorld)(''hello'' \<mapsto> (\<lambda>kw. raises (not_run_signal ''later'')))\<rparr>)
           \<lparr>kw_environment = local_environment, kw_case_name = None\<rparr> True [] hello_result idle of
      Some (Inr (cr, st)) \<Rightarrow> (status cr, map msg_status (notified st))
    | _ \<Rightarrow> (RUNNING, [])) = (NOTRUN, [RUNNING, NOTRUN])"
  by (simp add: engine_defs sample_defs)

text \<open>
  Claim C6, amended. Take a record that starts at \<open>NOTRUN\<close>, with
  \<open>retry \<ge> 0\<close> and a case that is a method of the suite. One round of the loop of
  \<^verbatim>\<open>start\<close> reports it as \<open>RUNNING\<close> exactly once and then as exactly one
  further status, which is not \<open>RUNNING\<close> and is the status the round leaves. With
  \<open>j\<close> the last attempt of \<^verbatim>\<open>before_case\<close> and \<open>k\<close> the last attempt of
  the body, that status is \<open>SKIPPED\<close> when the suite setup failed or attempt
  \<open>j\<close> raised, \<open>PASSED\<close> when attempt \<open>k\<close> returned, and otherwise the
  class of the exception of attempt \<open>k\<close>: \<open>NOTRUN\<close> arises only from a
  keep-not-run signal that is not also a skip signal.
\<close>

theorem status_sequence_of_a_run:
  fixes ts :: "('w, 'c) TestSuite" and st :: "'w run_state"
  assumes nr: "status cr = NOTRUN"
      and r: "0 \<le> retry (runtime_data cr)"
      and m: "test_methods ts (name (metadata (runtime_data cr))) = Some body"
  shows "let nm = name (metadata (runtime_data cr));
             ckw = kw\<lparr>kw_case_name := Some nm\<rparr>;
             prepare = invoke (Before_case nm) (before_case ts ckw);
             run = invoke (Test_method nm) (body ckw);
             st2 = snd (set_status RUNNING (Str []) (cr\<lparr>environment := Some (kw_environment kw)\<rparr>) st)
         in \<exists>cr' st' j k.
              start_case ts kw c msg cr st = Some (Inr (cr', st'))
            \<and> map msg_status (notified st') = map msg_status (notified st) @ [RUNNING, status cr']
            \<and> status cr' \<noteq> RUNNING
            \<and> j \<le> nat (retry (runtime_data cr)) \<and> k \<le> nat (retry (runtime_data cr))
            \<and> (\<forall>i<j. fst (prepare (((snd \<circ> prepare) ^^ i) st2)) \<noteq> None)
            \<and> (fst (prepare (((snd \<circ> prepare) ^^ j) st2)) \<noteq> None \<longrightarrow> j = nat (retry (runtime_data cr)))
            \<and> (\<forall>i<k. fst (run (((snd \<circ> run) ^^ i) (snd (prepare (((snd \<circ> prepare) ^^ j) st2))))) \<noteq> None)
            \<and> (fst (run (((snd \<circ> run) ^^ k) (snd (prepare (((snd \<circ> prepare) ^^ j) st2))))) \<noteq> None
                  \<longrightarrow> k = nat (retry (runtime_data cr)))
            \<and> status cr' =
                (if \<not> c then SKIPPED
                 else case fst (prepare (((snd \<circ> prepare) ^^ j) st2)) of
                        Some e \<Rightarrow> SKIPPED
                      | None \<Rightarrow>
                          (case fst (run (((snd \<circ> run) ^^ k) (snd (prepare (((snd \<circ> prepare) ^^ j) st2))))) of
                             None \<Rightarrow> PASSED
                           | Some e \<Rightarrow>
                               if is_SkippedException e then SKIPPED
                               else if is_NotRunException e then NOTRUN
                               else if is_PassedException e then PASSED
                               else if ignore_failure (runtime_data cr) then ATTEMPTED
                               else FAILED))"
proof -
  let ?nm = "name (metadata (runtime_data cr))"
  let ?ckw = "kw\<lparr>kw_case_name := Some ?nm\<rparr>"
  let ?prepare = "invoke (Before_case ?nm) (before_case ts ?ckw)"
  let ?run = "invoke (Test_method ?nm) (body ?ckw)"
  let ?R = "set_status RUNNING (Str []) (cr\<lparr>environment := Some (kw_environment kw)\<rparr>) st"
  let ?cr2 = "fst ?R"
  let ?st2 = "snd ?R"
  have R1: "runtime_data ?cr2 = runtime_data cr" "status ?cr2 = RUNNING"
    by (simp_all add: set_status_record_fields)
  have R2: "map msg_status (notified ?st2) = map msg_status (notified st) @ [RUNNING]"
    using nr by (simp add: set_status_statuses)
  have r2: "0 \<le> retry (runtime_data ?cr2)" using r R1 by simp
  have m2: "test_methods ts (name (metadata (runtime_data ?cr2))) = Some body" using m R1 by simp
  from before_case_shape[OF r2, of ts ?ckw ?st2] obtain j where
    j: "j \<le> nat (retry (runtime_data cr))"
       "TestSuite_before_case ts ?cr2 ?ckw ?st2 =
          Some (case fst (?prepare (((snd \<circ> ?prepare) ^^ j) ?st2)) of
                  None \<Rightarrow> (True, ?cr2, snd (?prepare (((snd \<circ> ?prepare) ^^ j) ?st2)))
                | Some e \<Rightarrow> (False, set_status SKIPPED (Str (''before_case: '' @ exc_str e)) ?cr2
                              (snd (?prepare (((snd \<circ> ?prepare) ^^ j) ?st2)))))"
       "\<forall>i<j. fst (?prepare (((snd \<circ> ?prepare) ^^ i) ?st2)) \<noteq> None"
       "fst (?prepare (((snd \<circ> ?prepare) ^^ j) ?st2)) \<noteq> None \<longrightarrow> j = nat (retry (runtime_data cr))"
    unfolding R1 by blast
  let ?s3 = "snd (?prepare (((snd \<circ> ?prepare) ^^ j) ?st2))"
  have s3: "notified ?s3 = notified ?st2"
    by (simp add: invoke_state_fields invoke_iter_fields)
  from run_case_shape[OF r2 m2, of ?ckw ?s3] obtain k where
    k: "k \<le> nat (retry (runtime_data cr))"
       "TestSuite_run_case ts ?cr2 ?ckw ?s3 =
          Some (Inr (case fst (?run (((snd \<circ> ?run) ^^ k) ?s3)) of
                   None \<Rightarrow> set_status PASSED (Str []) ?cr2 (snd (?run (((snd \<circ> ?run) ^^ k) ?s3)))
                 | Some e \<Rightarrow> handle_exception e [] ?cr2 (snd (?run (((snd \<circ> ?run) ^^ k) ?s3)))))"
       "\<forall>i<k. fst (?run (((snd \<circ> ?run) ^^ i) ?s3)) \<noteq> None"
       "fst (?run (((snd \<circ> ?run) ^^ k) ?s3)) \<noteq> None \<longrightarrow> k = nat (retry (runtime_data cr))"
    unfolding R1 by blast
  let ?s4 = "snd (?run (((snd \<circ> ?run) ^^ k) ?s3))"
  have s4: "notified ?s4 = notified ?st2"
    using s3 by (simp add: invoke_state_fields invoke_iter_fields)
  let ?T = "if \<not> c then SKIPPED
            else case fst (?prepare (((snd \<circ> ?prepare) ^^ j) ?st2)) of
                   Some e \<Rightarrow> SKIPPED
                 | None \<Rightarrow>
                     (case fst (?run (((snd \<circ> ?run) ^^ k) ?s3)) of
                        None \<Rightarrow> PASSED
                      | Some e \<Rightarrow>
                          if is_SkippedException e then SKIPPED
                          else if is_NotRunException e then NOTRUN
                          else if is_PassedException e then PASSED
                          else if ignore_failure (runtime_data cr) then ATTEMPTED
                          else FAILED)"
  have finish: "\<exists>cr' st'. start_case ts kw c msg cr st = Some (Inr (cr', st'))
            \<and> map msg_status (notified st') = map msg_status (notified st) @ [RUNNING, status cr']
            \<and> status cr' \<noteq> RUNNING \<and> status cr' = ?T"
    if X1: "start_case ts kw c msg cr st =
              (case TestSuite_after_case ts (fst X) ?ckw (snd X) of
                 None \<Rightarrow> None | Some st5 \<Rightarrow> Some (Inr (fst X, st5)))"
    and X2: "runtime_data (fst X) = runtime_data cr"
    and X3: "status (fst X) = ?T" "status (fst X) \<noteq> RUNNING"
    and X4: "map msg_status (notified (snd X)) = map msg_status (notified ?st2) @ [status (fst X)]"
    for X :: "'c TestResult \<times> 'w run_state"
  proof -
    have r4: "0 \<le> retry (runtime_data (fst X))" using r X2 by simp
    from after_case_effect[OF r4, of ts ?ckw "snd X"] obtain st5 where
      a: "TestSuite_after_case ts (fst X) ?ckw (snd X) = Some st5" "notified st5 = notified (snd X)"
      by blast
    have "start_case ts kw c msg cr st = Some (Inr (fst X, st5))"
      using X1 a(1) by simp
    moreover have "map msg_status (notified st5) =
        map msg_status (notified st) @ [RUNNING, status (fst X)]"
      using a(2) X4 R2 by simp
    ultimately show ?thesis using X3 by blast
  qed
  have main: "\<exists>cr' st'. start_case ts kw c msg cr st = Some (Inr (cr', st'))
            \<and> map msg_status (notified st') = map msg_status (notified st) @ [RUNNING, status cr']
            \<and> status cr' \<noteq> RUNNING \<and> status cr' = ?T"
  proof (cases c)
    case False
    let ?X = "set_status SKIPPED (Str msg) ?cr2 ?st2"
    show ?thesis
    proof (rule finish[of ?X])
      show "start_case ts kw c msg cr st =
              (case TestSuite_after_case ts (fst ?X) ?ckw (snd ?X) of
                 None \<Rightarrow> None | Some st5 \<Rightarrow> Some (Inr (fst ?X, st5)))"
        using False by (simp add: start_case_unfold split_def)
      show "runtime_data (fst ?X) = runtime_data cr"
        using R1 by (simp add: set_status_record_fields)
      show "status (fst ?X) = ?T" using False by (simp add: set_status_record_fields)
      show "status (fst ?X) \<noteq> RUNNING" by (simp add: set_status_record_fields)
      show "map msg_status (notified (snd ?X)) = map msg_status (notified ?st2) @ [status (fst ?X)]"
        using R1 by (simp add: set_status_statuses set_status_record_fields)
    qed
  next
    case True
    show ?thesis
    proof (cases "fst (?prepare (((snd \<circ> ?prepare) ^^ j) ?st2))")
      case (Some e)
      let ?X = "set_status SKIPPED (Str (''before_case: '' @ exc_str e)) ?cr2 ?s3"
      have bc: "TestSuite_before_case ts ?cr2 ?ckw ?st2 = Some (False, fst ?X, snd ?X)"
        using j(2) Some by simp
      show ?thesis
      proof (rule finish[of ?X])
        show "start_case ts kw c msg cr st =
              (case TestSuite_after_case ts (fst ?X) ?ckw (snd ?X) of
                 None \<Rightarrow> None | Some st5 \<Rightarrow> Some (Inr (fst ?X, st5)))"
          using True bc by (simp add: start_case_unfold split_def cong: option.case_cong)
        show "runtime_data (fst ?X) = runtime_data cr"
          using R1 by (simp add: set_status_record_fields)
        show "status (fst ?X) = ?T" using True Some by (simp add: set_status_record_fields)
        show "status (fst ?X) \<noteq> RUNNING" by (simp add: set_status_record_fields)
        show "map msg_status (notified (snd ?X)) = map msg_status (notified ?st2) @ [status (fst ?X)]"
          using R1 s3 by (simp add: set_status_statuses set_status_record_fields)
      qed
    next
      case None
      have bc: "TestSuite_before_case ts ?cr2 ?ckw ?st2 = Some (True, ?cr2, ?s3)"
        using j(2) None by simp
      let ?X = "case fst (?run (((snd \<circ> ?run) ^^ k) ?s3)) of
                   None \<Rightarrow> set_status PASSED (Str []) ?cr2 ?s4
                 | Some e \<Rightarrow> handle_exception e [] ?cr2 ?s4"
      have rc: "TestSuite_run_case ts ?cr2 ?ckw ?s3 = Some (Inr (fst ?X, snd ?X))"
        using k(2) by simp
      show ?thesis
      proof (rule finish[of ?X])
        show "start_case ts kw c msg cr st =
              (case TestSuite_after_case ts (fst ?X) ?ckw (snd ?X) of
                 None \<Rightarrow> None | Some st5 \<Rightarrow> Some (Inr (fst ?X, st5)))"
          using True bc rc by (simp add: start_case_unfold split_def cong: option.case_cong)
        show "runtime_data (fst ?X) = runtime_data cr"
          using R1
          by (simp add: set_status_record_fields handle_exception_record_fields split: option.splits)
        show "status (fst ?X) = ?T"
          using True None R1
          by (simp add: set_status_record_fields handle_exception_status split: option.splits)
        show "status (fst ?X) \<noteq> RUNNING"
          by (simp add: set_status_record_fields handle_exception_record_fields split: option.splits)
        show "map msg_status (notified (snd ?X)) = map msg_status (notified ?st2) @ [status (fst ?X)]"
        proof (cases "fst (?run (((snd \<circ> ?run) ^^ k) ?s3))")
          case None
          then show ?thesis
            using R1 s4 by (simp add: set_status_statuses set_status_record_fields)
        next
          case (Some e)
          have ne: "RUNNING \<noteq> status (fst (handle_exception e [] ?cr2 ?s4))"
            using handle_exception_record_fields(2)[of e "[]" ?cr2 ?s4] by simp
          have "map msg_status (notified (snd (handle_exception e [] ?cr2 ?s4))) =
              map msg_status (notified ?s4) @ [status (fst (handle_exception e [] ?cr2 ?s4))]"
            using ne R1(2) by (simp add: handle_exception_statuses)
          then show ?thesis using Some s4 by simp
        qed
      qed
    qed
  qed
  from main obtain cr' st' where
    f: "start_case ts kw c msg cr st = Some (Inr (cr', st'))"
       "map msg_status (notified st') = map msg_status (notified st) @ [RUNNING, status cr']"
       "status cr' \<noteq> RUNNING" "status cr' = ?T"
    by blast
  show ?thesis
    unfolding Let_def
    by (rule exI[of _ cr'], rule exI[of _ st'], rule exI[of _ j], rule exI[of _ k])
       (intro conjI f j(1) k(1) j(3) j(4) k(3) k(4))
qed

theorem status_sequence_of_a_run_witness:
  "status hello_result = NOTRUN
   \<and> 0 \<le> retry (runtime_data hello_result)
   \<and> test_methods HelloWorld (name (metadata (runtime_data hello_result))) = Some (\<lambda>kw. returns)
   \<and> (let nm = name (metadata (runtime_data hello_result));
             ckw = run_kwargs\<lparr>kw_case_name := Some nm\<rparr>;
             prepare = invoke (Before_case nm) (before_case HelloWorld ckw);
             run = invoke (Test_method nm) ((\<lambda>kw. returns) ckw);
             st2 = snd (set_status RUNNING (Str [])
                         (hello_result\<lparr>environment := Some (kw_environment run_kwargs)\<rparr>) idle)
         in \<exists>cr' st' j k.
              start_case HelloWorld run_kwargs True [] hello_result idle = Some (Inr (cr', st'))
            \<and> map msg_status (notified st') = map msg_status (notified idle) @ [RUNNING, status cr']
            \<and> status cr' \<noteq> RUNNING
            \<and> j \<le> nat (retry (runtime_data hello_result)) \<and> k \<le> nat (retry (runtime_data hello_result))
            \<and> (\<forall>i<j. fst (prepare (((snd \<circ> prepare) ^^ i) st2)) \<noteq> None)
            \<and> (fst (prepare (((snd \<circ> prepare) ^^ j) st2)) \<noteq> None
                  \<longrightarrow> j = nat (retry (runtime_data hello_result)))
            \<and> (\<forall>i<k. fst (run (((snd \<circ> run) ^^ i) (snd (prepare (((snd \<circ> prepare) ^^ j) st2))))) \<noteq> None)
            \<and> (fst (run (((snd \<circ> run) ^^ k) (snd (prepare (((snd \<circ> prepare) ^^ j) st2))))) \<noteq> None
                  \<longrightarrow> k = nat (retry (runtime_data hello_result)))
            \<and> status cr' =
                (if \<not> True then SKIPPED
                 else case fst (prepare (((snd \<circ> prepare) ^^ j) st2)) of
                        Some e \<Rightarrow> SKIPPED
                      | None \<Rightarrow>
                          (case fst (run (((snd \<circ> run) ^^ k) (snd (prepare (((snd \<circ> prepare) ^^ j) st2))))) of
                             None \<Rightarrow> PASSED
                           | Some e \<Rightarrow>
                               if is_SkippedException e then SKIPPED
                               else if is_NotRunException e then NOTRUN
                               else if is_PassedException e then PASSED
                               else if ignore_failure (runtime_data hello_result) then ATTEMPTED
                               else FAILED)))
   \<and> (case start_case HelloWorld run_kwargs True [] hello_result idle of
         Some (Inr (cr, st)) \<Rightarrow> (status cr, map msg_status (notified st))
       | _ \<Rightarrow> (RUNNING, []))
       = (PASSED, [RUNNING, PASSED])"
proof -
  have h0: "status hello_result = NOTRUN"
    by (simp add: sample_defs TestResult_init_def send_result_message_def)
  have h1: "0 \<le> retry (runtime_data hello_result)"
    by (simp add: sample_defs TestResult_init_def send_result_message_def)
  have h2: "test_methods HelloWorld (name (metadata (runtime_data hello_result))) = Some (\<lambda>kw. returns)"
    by (simp add: sample_defs TestResult_init_def send_result_message_def)
  note c = status_sequence_of_a_run[OF h0 h1 h2, where kw = run_kwargs and c = True and msg = "[]"
      and st = idle]
  have e: "(case start_case HelloWorld run_kwargs True [] hello_result idle of
         Some (Inr (cr, st)) \<Rightarrow> (status cr, map msg_status (notified st))
       | _ \<Rightarrow> (RUNNING, []))
       = (PASSED, [RUNNING, PASSED])"
    by (simp add: engine_defs sample_defs run_kwargs_def)
  show ?thesis by (intro conjI h0 h1 h2 c e)
qed

subsection \<open>C7: the check of the operating system of each node\<close>

text \<open>
  Claim C7, as stated, fails: with \<^verbatim>\<open>save_reason = True\<close> and two nodes that
  both fail the check, the stored explanation has the reason of the first node only.
\<close>

theorem check_environment_save_reason_counterexample:
  "nodes mixed_environment = [\<lparr>os_mro = [''Windows'']\<rparr>, \<lparr>os_mro = [''FreeBSD'', ''BSD'', ''Posix'']\<rparr>]
   \<and> space_check linux_only [''Windows'']
       = \<lparr>result = False, reasons = [''not Linux: Windows'']\<rparr>
   \<and> space_check linux_only [''FreeBSD'', ''BSD'', ''Posix'']
       = \<lparr>result = False, reasons = [''not Linux: FreeBSD'']\<rparr>
   \<and> map_sum id (\<lambda>(ok, r). (ok, check_results r))
         (check_environment linux_hello_result mixed_environment True)
       = Inr (False, Some \<lparr>result = False, reasons = [''os_type: not Linux: Windows'']\<rparr>)"
  by (simp add: check_environment_def linux_hello_result_def mixed_environment_def
        TestResult_init_def send_result_message_def TestCaseRuntimeData_init_def
        hello_metadata_def any_environment_def accepts_all_def linux_only_def Let_def merge_def idle_def
        dict_update_def)

text \<open>
  Claim C7, amended. Let the check of the environment pass, the requirement on the
  operating system be set and true, and the environment be connected. When the nodes
  before a node all pass the check and this node fails it, the loop merges the checks
  of exactly these nodes, in order, and stops: the result is false, its reasons are
  those gathered up to this node, and the nodes after it are not looked at, whatever
  \<^verbatim>\<open>save_reason\<close> is. \<^verbatim>\<open>save_reason\<close> only decides whether this result is
  stored in the record (merged into an earlier stored result when there is one) or the
  record is left as it is.
\<close>

theorem check_environment_stops_at_first_failure:
  assumes "req_environment (requirement (metadata (runtime_data self))) = Some env_space"
      and "space_truthy env_space"
      and "result (space_check env_space (capability env))"
      and "req_os_type (requirement (metadata (runtime_data self))) = Some os"
      and "space_truthy os"
      and "env_status env = Connected"
      and "nodes env = pre @ node # post"
      and "\<forall>n\<in>set pre. result (space_check os (os_mro n))"
      and "\<not> result (space_check os (os_mro node))"
      and "gathered = foldl (\<lambda>acc n. merge acc (space_check os (os_mro n)) ''os_type'')
                        (space_check env_space (capability env)) (pre @ [node])"
  shows "\<not> result gathered
       \<and> check_environment self env save_reason =
           Inr (False,
                if save_reason
                then self\<lparr>check_results :=
                       Some (case check_results self of
                               None \<Rightarrow> gathered
                             | Some previous \<Rightarrow> merge previous gathered [])\<rparr>
                else self)"
proof -
  let ?cr0 = "space_check env_space (capability env)"
  let ?M = "\<lambda>acc n. merge acc (space_check os (os_mro n)) ''os_type''"
  from os_type_loop_passing[OF assms(3) assms(8), of "node # post"]
  have p: "os_type_loop os ?cr0 (pre @ node # post) = os_type_loop os (foldl ?M ?cr0 pre) (node # post)"
    by simp
  from os_type_loop_failing[OF assms(9), of "foldl ?M ?cr0 pre" post]
  have f: "os_type_loop os (foldl ?M ?cr0 pre) (node # post) = gathered" "\<not> result gathered"
    using assms(10) by simp_all
  have loop: "os_type_loop os ?cr0 (nodes env) = gathered"
    using p f(1) assms(7) by simp
  have "check_environment self env save_reason =
           Inr (False,
                if save_reason
                then self\<lparr>check_results :=
                       Some (case check_results self of
                               None \<Rightarrow> gathered
                             | Some previous \<Rightarrow> merge previous gathered [])\<rparr>
                else self)"
    using assms(1,2,3,4,5,6) loop f(2)
    by (simp add: check_environment_def Let_def split: option.splits)
  then show ?thesis using f(2) by simp
qed

theorem check_environment_stops_at_first_failure_witness:
  "req_environment (requirement (metadata (runtime_data linux_hello_result))) = Some accepts_all
   \<and> space_truthy accepts_all
   \<and> result (space_check accepts_all (capability three_node_environment))
   \<and> req_os_type (requirement (metadata (runtime_data linux_hello_result))) = Some linux_only
   \<and> space_truthy linux_only
   \<and> env_status three_node_environment = Connected
   \<and> nodes three_node_environment =
        [\<lparr>os_mro = [''Ubuntu'', ''Linux'', ''Posix'']\<rparr>] @ \<lparr>os_mro = [''Windows'']\<rparr> #
        [\<lparr>os_mro = [''FreeBSD'', ''BSD'', ''Posix'']\<rparr>]
   \<and> result (space_check linux_only (os_mro \<lparr>os_mro = [''Ubuntu'', ''Linux'', ''Posix'']\<rparr>))
   \<and> \<not> result (space_check linux_only (os_mro \<lparr>os_mro = [''Windows'']\<rparr>))
   \<and> \<not> result (space_check linux_only (os_mro \<lparr>os_mro = [''FreeBSD'', ''BSD'', ''Posix'']\<rparr>))
   \<and> \<lparr>result = False, reasons = [''os_type: not Linux: Windows'']\<rparr>
       = foldl (\<lambda>acc n. merge acc (space_check linux_only (os_mro n)) ''os_type'')
           (space_check accepts_all (capability three_node_environment))
           ([\<lparr>os_mro = [''Ubuntu'', ''Linux'', ''Posix'']\<rparr>] @ [\<lparr>os_mro = [''Windows'']\<rparr>])
   \<and> \<not> result \<lparr>result = False, reasons = [''os_type: not Linux: Windows'']\<rparr>
   \<and> check_environment linux_hello_result three_node_environment True =
         Inr (False,
              if True
              then linux_hello_result\<lparr>check_results :=
                     Some (case check_results linux_hello_result of
                             None \<Rightarrow> \<lparr>result = False, reasons = [''os_type: not Linux: Windows'']\<rparr>
                           | Some previous \<Rightarrow>
                               merge previous
                                 \<lparr>result = False, reasons = [''os_type: not Linux: Windows'']\<rparr> [])\<rparr>
              else linux_hello_result)
   \<and> check_environment linux_hello_result three_node_environment False =
         Inr (False,
              if False
              then linux_hello_result\<lparr>check_results :=
                     Some (case check_results linux_hello_result of
                             None \<Rightarrow> \<lparr>result = False, reasons = [''os_type: not Linux: Windows'']\<rparr>
                           | Some previous \<Rightarrow>
                               merge previous
                                 \<lparr>result = False, reasons = [''os_type: not Linux: Windows'']\<rparr> [])\<rparr>
              else linux_hello_result)"
proof -
  let ?ubuntu = "\<lparr>os_mro = [''Ubuntu'', ''Linux'', ''Posix'']\<rparr>"
  let ?windows = "\<lparr>os_mro = [''Windows'']\<rparr>"
  let ?bsd = "\<lparr>os_mro = [''FreeBSD'', ''BSD'', ''Posix'']\<rparr>"
  let ?g = "\<lparr>result = False, reasons = [''os_type: not Linux: Windows'']\<rparr>"
  have h1: "req_environment (requirement (metadata (runtime_data linux_hello_result))) = Some accepts_all"
    by (simp add: linux_hello_result_def hello_metadata_def any_environment_def
          TestCaseRuntimeData_init_def TestResult_init_def send_result_message_def)
  have h2: "space_truthy accepts_all" by (simp add: accepts_all_def)
  have h3: "result (space_check accepts_all (capability three_node_environment))"
    by (simp add: accepts_all_def)
  have h4: "req_os_type (requirement (metadata (runtime_data linux_hello_result))) = Some linux_only"
    by (simp add: linux_hello_result_def hello_metadata_def any_environment_def
          TestCaseRuntimeData_init_def TestResult_init_def send_result_message_def)
  have h5: "space_truthy linux_only" by (simp add: linux_only_def)
  have h6: "env_status three_node_environment = Connected"
    by (simp add: three_node_environment_def)
  have h7: "nodes three_node_environment = [?ubuntu] @ ?windows # [?bsd]"
    by (simp add: three_node_environment_def)
  have h8: "result (space_check linux_only (os_mro ?ubuntu))" by (simp add: linux_only_def)
  then have h8': "\<forall>n\<in>set [?ubuntu]. result (space_check linux_only (os_mro n))" by simp
  have h9: "\<not> result (space_check linux_only (os_mro ?windows))" by (simp add: linux_only_def)
  have h9': "\<not> result (space_check linux_only (os_mro ?bsd))" by (simp add: linux_only_def)
  have h10: "?g = foldl (\<lambda>acc n. merge acc (space_check linux_only (os_mro n)) ''os_type'')
           (space_check accepts_all (capability three_node_environment)) ([?ubuntu] @ [?windows])"
    by (simp add: linux_only_def accepts_all_def merge_def)
  note t = check_environment_stops_at_first_failure[OF h1 h2 h3 h4 h5 h6 h7 h8' h9 h10,
      where save_reason = True]
  note f = check_environment_stops_at_first_failure[OF h1 h2 h3 h4 h5 h6 h7 h8' h9 h10,
      where save_reason = False]
  show ?thesis
    by (intro conjI h1 h2 h3 h4 h5 h6 h7 h8 h9 h9' h10 conjunct1[OF t] conjunct2[OF t]
          conjunct2[OF f])
qed

subsection \<open>C8: the stop signal\<close>

text \<open>
  Claim C8. Let the loop of \<^verbatim>\<open>start\<close> reach a record without the stop flag
  set, and let the round of this record (with \<open>retry \<ge> 0\<close> and a case that is a method
  of the suite) end with the flag set. Then the round ended with the invocations of
  \<^verbatim>\<open>after_case\<close> for this record, the records after it are returned as they
  were, and all that follows is one invocation of \<^verbatim>\<open>after_suite\<close>, which sends no
  message.
\<close>

theorem stop_ends_the_case_loop:
  fixes ts :: "('w, 'c) TestSuite" and st :: "'w run_state"
  assumes kw: "kw = \<lparr>kw_environment = env\<lparr>is_new := False\<rparr>, kw_case_name = None\<rparr>"
      and bs: "TestSuite_suite_method Before_suite (before_suite_name ts) (before_suite ts kw) st
                 = ((c, msg), st0)"
      and pre: "start_loop ts kw c msg pre st0 = Some (Inr (pre', st1))"
      and ns: "\<not> should_stop st1"
      and cur: "start_case ts kw c msg cr st1 = Some (Inr (cr', st2))"
      and stop: "should_stop st2"
      and r: "0 \<le> retry (runtime_data cr)"
      and m: "test_methods ts (name (metadata (runtime_data cr))) = Some body"
  shows "\<exists>st3 l k.
           TestSuite_start ts env (pre @ cr # post) st
             = Some (Inr (env\<lparr>is_new := False\<rparr>, pre' @ cr' # post, st3))
         \<and> call_log st2 = l @ replicate (Suc k) (After_case (name (metadata (runtime_data cr))))
         \<and> call_log st3 = call_log st2 @ [After_suite]
         \<and> notified st3 = notified st2"
proof -
  let ?ckw = "kw\<lparr>kw_case_name := Some (name (metadata (runtime_data cr)))\<rparr>"
  let ?A = "TestSuite_suite_method After_suite (after_suite_name ts) (after_suite ts kw) st2"
  have "start_loop ts kw c msg (cr # post) st1 = Some (Inr (cr' # post, st2))"
    using cur stop by simp
  then have loop: "start_loop ts kw c msg (pre @ cr # post) st0 = Some (Inr (pre' @ cr' # post, st2))"
    using start_loop_append[OF pre ns, of "cr # post"] by simp
  have run: "TestSuite_start ts env (pre @ cr # post) st
      = Some (Inr (env\<lparr>is_new := False\<rparr>, pre' @ cr' # post, snd ?A))"
    using loop bs kw by (simp add: start_unfold)
  from start_case_prefix[OF r m, of kw c msg st1] obtain cr4 st4 where
    p: "\<And>h. start_case (ts\<lparr>after_case := h\<rparr>) kw c msg cr st1 =
            (case TestSuite_after_case (ts\<lparr>after_case := h\<rparr>) cr4 ?ckw st4 of
               None \<Rightarrow> None | Some st5 \<Rightarrow> Some (Inr (cr4, st5)))"
    and rd: "runtime_data cr4 = runtime_data cr"
    by blast
  have r4: "0 \<le> retry (runtime_data cr4)" using r rd by simp
  from after_case_effect[OF r4, of ts ?ckw st4] obtain st5 k where
    a: "TestSuite_after_case ts cr4 ?ckw st4 = Some st5"
       "call_log st5 = call_log st4 @ replicate (Suc k) (After_case (name (metadata (runtime_data cr4))))"
    by blast
  have "start_case ts kw c msg cr st1 = Some (Inr (cr4, st5))"
    using p[of "after_case ts"] a(1) by simp
  then have "st2 = st5" using cur by simp
  then have lg: "call_log st2 = call_log st4 @ replicate (Suc k) (After_case (name (metadata (runtime_data cr))))"
    using a(2) rd by simp
  show ?thesis
    apply (rule exI[of _ "snd ?A"], rule exI[of _ "call_log st4"], rule exI[of _ k])
    using run lg by (simp add: suite_method_effect)
qed

text \<open>
  A suite with two cases whose second body calls \<^verbatim>\<open>stop()\<close>: both cases run
  and \<^verbatim>\<open>after_suite\<close> runs once.
\<close>

theorem stop_ends_the_case_loop_witness:
  "\<exists>st0 pre' st1 cr' st2 st3.
      TestSuite_suite_method Before_suite (before_suite_name stopping_suite)
        (before_suite stopping_suite run_kwargs) idle
        = ((True, []), st0)
    \<and> start_loop stopping_suite run_kwargs True [] [hello_result] st0 = Some (Inr (pre', st1))
    \<and> \<not> should_stop st1
    \<and> start_case stopping_suite run_kwargs True [] bye_result st1 = Some (Inr (cr', st2))
    \<and> should_stop st2
    \<and> 0 \<le> retry (runtime_data bye_result)
    \<and> test_methods stopping_suite (name (metadata (runtime_data bye_result))) = Some stopping_bye
    \<and> TestSuite_start stopping_suite local_environment ([hello_result] @ bye_result # []) idle
        = Some (Inr (local_environment\<lparr>is_new := False\<rparr>, pre' @ cr' # [], st3))
    \<and> call_log st3 = call_log st2 @ [After_suite]
    \<and> map status (pre' @ cr' # []) = [PASSED, PASSED]
    \<and> call_log st3 =
        [Before_suite, Before_case ''hello'', Test_method ''hello'', After_case ''hello'',
         Before_case ''bye'', Test_method ''bye'', After_case ''bye'', After_suite]"
proof -
  let ?B = "TestSuite_suite_method Before_suite (before_suite_name stopping_suite)
              (before_suite stopping_suite run_kwargs) idle"
  let ?L = "start_loop stopping_suite run_kwargs True [] [hello_result] (snd ?B)"
  let ?pre = "fst (projr (the ?L))"
  let ?st1 = "snd (projr (the ?L))"
  let ?C = "start_case stopping_suite run_kwargs True [] bye_result ?st1"
  let ?cr = "fst (projr (the ?C))"
  let ?st2 = "snd (projr (the ?C))"
  have kw: "run_kwargs = \<lparr>kw_environment = local_environment\<lparr>is_new := False\<rparr>, kw_case_name = None\<rparr>"
    by (simp add: run_kwargs_def)
  have bs: "?B = ((True, []), snd ?B)"
    by (simp add: engine_defs sample_defs stopping_suite_def run_kwargs_def)
  have pre: "?L = Some (Inr (?pre, ?st1))"
    by (simp add: engine_defs sample_defs stopping_suite_def run_kwargs_def)
  have ns: "\<not> should_stop ?st1"
    by (simp add: engine_defs sample_defs stopping_suite_def run_kwargs_def)
  have cur: "?C = Some (Inr (?cr, ?st2))"
    by (simp add: engine_defs sample_defs stopping_suite_def run_kwargs_def)
  have stop: "should_stop ?st2"
    by (simp add: engine_defs sample_defs stopping_suite_def run_kwargs_def)
  have r: "0 \<le> retry (runtime_data bye_result)"
    by (simp add: sample_defs TestResult_init_def send_result_message_def)
  have m: "test_methods stopping_suite (name (metadata (runtime_data bye_result))) = Some stopping_bye"
    by (simp add: sample_defs stopping_suite_def TestResult_init_def send_result_message_def)
  from stop_ends_the_case_loop[OF kw bs pre ns cur stop r m, where post = "[]"]
  obtain st3 where
    c: "TestSuite_start stopping_suite local_environment ([hello_result] @ bye_result # []) idle
          = Some (Inr (local_environment\<lparr>is_new := False\<rparr>, ?pre @ ?cr # [], st3))"
       "call_log st3 = call_log ?st2 @ [After_suite]"
    by blast
  have e1: "map status (?pre @ ?cr # []) = [PASSED, PASSED]"
    by (simp add: engine_defs sample_defs stopping_suite_def run_kwargs_def)
  have "call_log ?st2 =
        [Before_suite, Before_case ''hello'', Test_method ''hello'', After_case ''hello'',
         Before_case ''bye'', Test_method ''bye'', After_case ''bye'']"
    by (simp add: engine_defs sample_defs stopping_suite_def run_kwargs_def)
  then have e2: "call_log st3 =
        [Before_suite, Before_case ''hello'', Test_method ''hello'', After_case ''hello'',
         Before_case ''bye'', Test_method ''bye'', After_case ''bye'', After_suite]"
    using c(2) by simp
  show ?thesis
    by (rule exI[of _ "snd ?B"], rule exI[of _ ?pre], rule exI[of _ ?st1], rule exI[of _ ?cr],
        rule exI[of _ ?st2], rule exI[of _ st3])
       (intro conjI bs pre ns cur stop r m c e1 e2)
qed

subsection \<open>C9: duplicate registrations\<close>

text \<open>
  Claim C9. Registering a suite under a key that \<^verbatim>\<open>_all_suites\<close> has, or a
  case under a full name that \<^verbatim>\<open>_all_cases\<close> has, raises a
  \<^verbatim>\<open>LisaException\<close> and leaves both dictionaries as they were.
\<close>

theorem duplicate_registration_leaves_registry:
  "(map_of (all_suites reg)
      (if suite_name smd \<noteq> [] then suite_name smd else test_class_name smd) \<noteq> None
     \<longrightarrow> (\<exists>err. add_suite_metadata smd reg = (Some (LisaException err), reg)))
   \<and> (map_of (all_cases reg) (full_name cmd) \<noteq> None
     \<longrightarrow> (\<exists>err. add_case_metadata cmd reg = (Some (LisaException err), reg)))"
  by (auto simp: add_suite_metadata_def add_case_metadata_def Let_def)

theorem duplicate_registration_leaves_registry_witness:
  "map_of (all_suites loaded_registry)
      (if suite_name HelloWorld_metadata \<noteq> [] then suite_name HelloWorld_metadata
       else test_class_name HelloWorld_metadata) \<noteq> None
   \<and> map_of (all_cases loaded_registry) (full_name hello_metadata) \<noteq> None
   \<and> (\<exists>err. add_suite_metadata HelloWorld_metadata loaded_registry
               = (Some (LisaException err), loaded_registry))
   \<and> (\<exists>err. add_case_metadata hello_metadata loaded_registry
               = (Some (LisaException err), loaded_registry))"
proof -
  have h1: "map_of (all_suites loaded_registry)
      (if suite_name HelloWorld_metadata \<noteq> [] then suite_name HelloWorld_metadata
       else test_class_name HelloWorld_metadata) \<noteq> None"
    by (simp add: loaded_registry_def add_suite_metadata_def add_case_metadata_def
          add_case_to_suite_def HelloWorld_metadata_def hello_metadata_def bye_metadata_def Let_def)
  have h2: "map_of (all_cases loaded_registry) (full_name hello_metadata) \<noteq> None"
    by (simp add: loaded_registry_def add_suite_metadata_def add_case_metadata_def
          add_case_to_suite_def HelloWorld_metadata_def hello_metadata_def bye_metadata_def Let_def)
  from duplicate_registration_leaves_registry[of loaded_registry HelloWorld_metadata hello_metadata]
  have c1: "\<exists>err. add_suite_metadata HelloWorld_metadata loaded_registry
               = (Some (LisaException err), loaded_registry)"
   and c2: "\<exists>err. add_case_metadata hello_metadata loaded_registry
               = (Some (LisaException err), loaded_registry)"
    using h1 h2 by blast+
  show ?thesis by (intro conjI h1 h2 c1 c2)
qed

subsection \<open>C10: the message sent at creation\<close>

text \<open>
  Claim C10. Creating a record sends one message with the status \<open>NOTRUN\<close>, the
  identifier and the full name of the case, no elapsed time, no text and no
  information; the record starts at \<open>NOTRUN\<close>.
\<close>

theorem TestResult_init_notifies:
  "notified (snd (TestResult_init i rd st)) =
     notified st @
       [\<lparr>msg_id = i, msg_type = ''TestResult'', msg_name = full_name (metadata rd),
         msg_status = NOTRUN, msg_elapsed = 0, msg_message = [], msg_information = []\<rparr>]
   \<and> status (fst (TestResult_init i rd st)) = NOTRUN"
  by (simp add: TestResult_init_def send_result_message_def dict_update_def)

end
